theory Spec2Isabelle
  imports Main
begin

section \<open>Data model (database/schema.py, create_tables)\<close>

text \<open>
  A Python \<open>str\<close> is a sequence of Unicode code points; the regular expressions of the
  source classify code points (\<open>\S\<close>), so a string is modelled as the list of its code
  points. \<open>ascii\<close> turns an ASCII literal into such a list.
\<close>

type_synonym pystr = "nat list"

definition ascii :: "string \<Rightarrow> pystr" where
  "ascii s = map of_char s"

text \<open>
  Timestamps are the values of \<open>CURRENT_TIMESTAMP\<close> (text of the form
  \<open>YYYY-MM-DD HH:MM:SS\<close>, compared as text, which is chronological order); they are
  modelled as the integer number of seconds the text denotes. The wall clock is an input of
  every operation that stores one.
\<close>

type_synonym timestamp = int

record user_row =
  user_id :: int
  username :: pystr
  total_points :: int
  created_at :: timestamp

record session_row =
  session_id :: int
  s_user_id :: int
  link :: pystr
  message_id :: "int option"
  submitted_at :: timestamp
  engaged :: bool
  channel_id :: "int option"

record engagement_row =
  engagement_id :: int
  engager_id :: int
  target_session_id :: int
  engaged_at :: timestamp

text \<open>
  The three tables, each in table (rowid) order, and the two \<open>AUTOINCREMENT\<close> counters:
  an \<open>AUTOINCREMENT\<close> key is one more than the largest key ever handed out, also after
  the rows have been deleted. \<open>users.user_id\<close> is the rowid of \<open>users\<close>, so that
  table is kept in ascending \<open>user_id\<close> order.
\<close>

record db =
  users :: "user_row list"
  sessions :: "session_row list"
  engagements :: "engagement_row list"
  session_seq :: int
  engagement_seq :: int

definition empty_db :: db where
  "empty_db = \<lparr>users = [], sessions = [], engagements = [], session_seq = 0, engagement_seq = 0\<rparr>"

section \<open>Store operations (database/schema.py)\<close>

text \<open>
  \<open>ORDER BY key DESC\<close> and \<open>ORDER BY key ASC\<close>. SQL leaves the order of rows with
  equal keys open; here they stay in table order, as they do in SQLite's sorter. No
  property below depends on that choice where keys are equal.
\<close>

definition order_by_desc :: "('a \<Rightarrow> int) \<Rightarrow> 'a list \<Rightarrow> 'a list" where
  "order_by_desc k rows = sort_key (\<lambda>r. - k r) rows"

definition order_by_asc :: "('a \<Rightarrow> int) \<Rightarrow> 'a list \<Rightarrow> 'a list" where
  "order_by_asc k rows = sort_key k rows"

text \<open>\<open>LIMIT n\<close>: a negative limit is no limit.\<close>

definition limit_rows :: "int \<Rightarrow> 'a list \<Rightarrow> 'a list" where
  "limit_rows n rows = (if n < 0 then rows else take (nat n) rows)"

definition add_user :: "db \<Rightarrow> int \<Rightarrow> pystr \<Rightarrow> timestamp \<Rightarrow> db" where
  "add_user d uid name now =
     (if uid \<in> set (map user_id (users d))
      then d\<lparr>users := map (\<lambda>u. if user_id u = uid then u\<lparr>username := name\<rparr> else u) (users d)\<rparr>
      else d\<lparr>users := insort_key user_id
             \<lparr>user_id = uid, username = name, total_points = 0, created_at = now\<rparr> (users d)\<rparr>)"

definition add_session :: "db \<Rightarrow> int \<Rightarrow> pystr \<Rightarrow> int \<Rightarrow> int \<Rightarrow> timestamp \<Rightarrow> db \<times> int" where
  "add_session d uid lnk mid cid now =
     (let sid = session_seq d + 1
      in (d\<lparr>sessions := sessions d @
               [\<lparr>session_id = sid, s_user_id = uid, link = lnk, message_id = Some mid,
                 submitted_at = now, engaged = False, channel_id = Some cid\<rparr>],
             session_seq := sid\<rparr>, sid))"

definition get_active_session :: "db \<Rightarrow> int \<Rightarrow> session_row option" where
  "get_active_session d uid =
     (case limit_rows 1 (order_by_desc submitted_at (filter (\<lambda>s. s_user_id s = uid) (sessions d))) of
        [] \<Rightarrow> None
      | row # _ \<Rightarrow> Some row)"

definition mark_engaged :: "db \<Rightarrow> int \<Rightarrow> db" where
  "mark_engaged d uid =
     (case get_active_session d uid of
        None \<Rightarrow> d
      | Some a \<Rightarrow> d\<lparr>sessions := map (\<lambda>s. if s_user_id s = uid \<and> session_id s = session_id a
                                       then s\<lparr>engaged := True\<rparr> else s) (sessions d)\<rparr>)"

text \<open>\<open>SELECT COUNT(*) FROM engagements WHERE engager_id = ? AND target_session_id = ?\<close>\<close>

definition count_engagements :: "db \<Rightarrow> int \<Rightarrow> int \<Rightarrow> nat" where
  "count_engagements d eid sid =
     length (filter (\<lambda>e. engager_id e = eid \<and> target_session_id e = sid) (engagements d))"

definition has_engaged :: "db \<Rightarrow> int \<Rightarrow> int \<Rightarrow> bool" where
  "has_engaged d eid sid = (count_engagements d eid sid > 0)"

definition add_engagement :: "db \<Rightarrow> int \<Rightarrow> int \<Rightarrow> timestamp \<Rightarrow> db \<times> bool" where
  "add_engagement d eid sid now =
     (if has_engaged d eid sid then (d, False)
      else (d\<lparr>engagements := engagements d @
                 [\<lparr>engagement_id = engagement_seq d + 1, engager_id = eid,
                   target_session_id = sid, engaged_at = now\<rparr>],
               engagement_seq := engagement_seq d + 1\<rparr>, True))"

definition add_point :: "db \<Rightarrow> int \<Rightarrow> db" where
  "add_point d uid =
     d\<lparr>users := map (\<lambda>u. if user_id u = uid then u\<lparr>total_points := total_points u + 1\<rparr> else u)
                    (users d)\<rparr>"

definition get_leaderboard :: "db \<Rightarrow> int \<Rightarrow> (int \<times> pystr \<times> int) list" where
  "get_leaderboard d n =
     map (\<lambda>u. (user_id u, username u, total_points u))
         (limit_rows n (order_by_desc total_points (users d)))"

definition reset_all_sessions :: "db \<Rightarrow> db" where
  "reset_all_sessions d = d\<lparr>sessions := [], engagements := []\<rparr>"

text \<open>
  \<open>SELECT user_id, MAX(session_id) FROM sessions GROUP BY user_id\<close>: one row per owner,
  in ascending \<open>user_id\<close> order.
\<close>

definition latest_session_rows :: "db \<Rightarrow> (int \<times> int) list" where
  "latest_session_rows d =
     map (\<lambda>uid. (uid, Max (set (map session_id (filter (\<lambda>s. s_user_id s = uid) (sessions d))))))
         (sort (remdups (map s_user_id (sessions d))))"

text \<open>
  The dict built from those rows: an association list with distinct keys, in insertion
  order; \<open>m[k]\<close> is \<open>map_of m k\<close>.
\<close>

definition get_latest_sessions_map :: "db \<Rightarrow> (int \<times> int) list" where
  "get_latest_sessions_map d = latest_session_rows d"

definition get_engagers_for_session :: "db \<Rightarrow> int \<Rightarrow> int list" where
  "get_engagers_for_session d sid =
     map engager_id (order_by_asc engaged_at (filter (\<lambda>e. target_session_id e = sid) (engagements d)))"

text \<open>\<open>SELECT total_points FROM users WHERE user_id = ?\<close>, the value the leaderboard shows.\<close>

definition points_of :: "db \<Rightarrow> int \<Rightarrow> int option" where
  "points_of d uid = map_option total_points (find (\<lambda>u. user_id u = uid) (users d))"

text \<open>
  \<open>UPDATE sessions SET link = ? WHERE session_id = ?\<close>, issued by \<open>change_link\<close>
  on the connection directly.
\<close>

definition update_link :: "db \<Rightarrow> int \<Rightarrow> pystr \<Rightarrow> db" where
  "update_link d sid lnk =
     d\<lparr>sessions := map (\<lambda>s. if session_id s = sid then s\<lparr>link := lnk\<rparr> else s) (sessions d)\<rparr>"

subsection \<open>get_non_engaged_users\<close>

text \<open>\<open>str(n)\<close> for an integer: decimal digits, with a minus sign when negative.\<close>

function str_nat :: "nat \<Rightarrow> pystr" where
  "str_nat n = (if n < 10 then [48 + n] else str_nat (n div 10) @ [48 + n mod 10])"
  by pat_completeness auto
termination
  by (relation "measure id") auto

definition str_int :: "int \<Rightarrow> pystr" where
  "str_int i = (if i < 0 then 45 # str_nat (nat (- i)) else str_nat (nat i))"

text \<open>
  The inner loop over \<open>other_id\<close>: \<open>None\<close> is the \<open>KeyError\<close> of
  \<open>session_map[other_id]\<close>, \<open>Some missing\<close> the value of the flag at the end.
\<close>

fun missing_engagement :: "db \<Rightarrow> (int \<times> int) list \<Rightarrow> int \<Rightarrow> int list \<Rightarrow> bool option" where
  "missing_engagement d session_map uid [] = Some False"
| "missing_engagement d session_map uid (other_id # rest) =
     (if other_id = uid then missing_engagement d session_map uid rest
      else (case map_of session_map other_id of
              None \<Rightarrow> None
            | Some sid \<Rightarrow>
                if count_engagements d uid sid = 0 then Some True
                else missing_engagement d session_map uid rest))"

definition username_or_id :: "db \<Rightarrow> int \<Rightarrow> pystr" where
  "username_or_id d uid =
     (case find (\<lambda>u. user_id u = uid) (users d) of
        Some row \<Rightarrow> username row
      | None \<Rightarrow> str_int uid)"

text \<open>The outer loop, over the users still to visit.\<close>

fun non_engaged_loop :: "db \<Rightarrow> (int \<times> int) list \<Rightarrow> int list \<Rightarrow> int list \<Rightarrow> (int \<times> pystr) list option" where
  "non_engaged_loop d session_map user_ids [] = Some []"
| "non_engaged_loop d session_map user_ids (uid # rest) =
     (case missing_engagement d session_map uid user_ids of
        None \<Rightarrow> None
      | Some missing \<Rightarrow>
          (case non_engaged_loop d session_map user_ids rest of
             None \<Rightarrow> None
           | Some found \<Rightarrow>
               Some (if missing then (uid, username_or_id d uid) # found else found)))"

definition get_non_engaged_users :: "db \<Rightarrow> (int \<times> pystr) list option" where
  "get_non_engaged_users d =
     (let user_sessions = latest_session_rows d;
          user_ids = map fst user_sessions
      in non_engaged_loop d user_sessions user_ids user_ids)"

section \<open>Commands (commands/engagement.py, commands/admin.py)\<close>

subsection \<open>status\<close>

record status_report =
  st_link :: pystr
  st_engaged_count :: nat
  st_total_required :: nat
  st_pending_ids :: "int list"

definition status :: "db \<Rightarrow> int \<Rightarrow> status_report option" where
  "status d uid =
     (case get_active_session d uid of
        None \<Rightarrow> None
      | Some session \<Rightarrow>
          (let latest_map = get_latest_sessions_map d;
               all_user_ids = set (map fst latest_map);
               other_user_ids = sorted_list_of_set {u \<in> all_user_ids. u \<noteq> uid};
               total_required = length other_user_ids;
               engagers = get_engagers_for_session d (session_id session);
               engaged_set = set engagers;
               engaged_count = card (engaged_set \<inter> (all_user_ids - {uid}));
               pending_ids = filter (\<lambda>u. u \<notin> engaged_set) other_user_ids
           in Some \<lparr>st_link = link session, st_engaged_count = engaged_count,
                    st_total_required = total_required, st_pending_ids = pending_ids\<rparr>))"

subsection \<open>change_link\<close>

text \<open>
  \<open>\s\<close> in a \<open>str\<close> pattern: the code points for which \<open>str.isspace\<close> holds.
\<close>

definition is_space :: "nat \<Rightarrow> bool" where
  "is_space c = (c \<in> {9, 10, 11, 12, 13, 28, 29, 30, 31, 32, 133, 160, 5760, 8232, 8233, 8239, 8287, 12288}
                 \<or> (8192 \<le> c \<and> c \<le> 8202))"

text \<open>
  \<open>https?://\<close> at the start of a string: what follows the scheme, if the scheme is there.
\<close>

definition strip_scheme :: "pystr \<Rightarrow> pystr option" where
  "strip_scheme s =
     (if take 8 s = ascii ''https://'' then Some (drop 8 s)
      else if take 7 s = ascii ''http://'' then Some (drop 7 s)
      else None)"

text \<open>
  \<open>re.compile(r"^https?://\S+$").match(s)\<close>: the scheme, then all the non-space code
  points that follow (at least one), then the end of the string; \<open>$\<close> also matches just
  before a newline that ends the string.
\<close>

definition url_pattern_match :: "pystr \<Rightarrow> bool" where
  "url_pattern_match s =
     (case strip_scheme s of
        None \<Rightarrow> False
      | Some r \<Rightarrow> takeWhile (\<lambda>c. \<not> is_space c) r \<noteq> []
                  \<and> dropWhile (\<lambda>c. \<not> is_space c) r \<in> {[], [10]})"

text \<open>The result of a call to the chat platform inside the \<open>try\<close> block.\<close>

datatype api_result = Done | NotFound | OtherError

fun first_failure :: "api_result list \<Rightarrow> api_result" where
  "first_failure [] = Done"
| "first_failure (Done # rs) = first_failure rs"
| "first_failure (r # rs) = r"

record change_link_event =
  c_user_id :: int
  c_new_link :: pystr
  c_channel_found :: bool
  c_fetch_message :: api_result
  c_edit_message :: api_result
  c_log_channel_found :: bool
  c_log_send :: api_result

text \<open>
  What the command did: the four rejections, an exception other than
  \<open>discord.NotFound\<close> leaving the \<open>try\<close> block, or the update, with the old and new
  link sent to the log channel when there is one.
\<close>

datatype change_link_result =
    InvalidURL
  | NoActiveSession
  | ChannelNotFound
  | MessageNotFound
  | Raised
  | LinkUpdated "(pystr \<times> pystr) option"

definition change_link :: "db \<Rightarrow> change_link_event \<Rightarrow> db \<times> change_link_result" where
  "change_link d ev =
     (if \<not> url_pattern_match (c_new_link ev) then (d, InvalidURL)
      else (case get_active_session d (c_user_id ev) of
              None \<Rightarrow> (d, NoActiveSession)
            | Some session \<Rightarrow>
                if channel_id session = None \<or> channel_id session = Some 0 \<or> \<not> c_channel_found ev
                then (d, ChannelNotFound)
                else (case first_failure
                             ([c_fetch_message ev, c_edit_message ev]
                              @ (if c_log_channel_found ev then [c_log_send ev] else [])) of
                        NotFound \<Rightarrow> (d, MessageNotFound)
                      | OtherError \<Rightarrow> (d, Raised)
                      | Done \<Rightarrow>
                          (update_link d (session_id session) (c_new_link ev),
                           LinkUpdated (if c_log_channel_found ev
                                        then Some (link session, c_new_link ev) else None)))))"

section \<open>Event handlers (events/message_handler.py)\<close>

definition checkmark_emoji :: pystr where
  "checkmark_emoji = [9989]"

subsection \<open>on_message\<close>

text \<open>
  \<open>re.compile(r"https?://\S+").findall(content)[0]\<close>: the leftmost match, which runs to
  the next space.
\<close>

definition url_at :: "pystr \<Rightarrow> pystr option" where
  "url_at s =
     (case strip_scheme s of
        None \<Rightarrow> None
      | Some r \<Rightarrow>
          (let body = takeWhile (\<lambda>c. \<not> is_space c) r
           in if body = [] then None else Some (take (length s - length r) s @ body)))"

fun first_url :: "pystr \<Rightarrow> pystr option" where
  "first_url [] = None"
| "first_url (c # cs) = (case url_at (c # cs) of Some u \<Rightarrow> Some u | None \<Rightarrow> first_url cs)"

text \<open>
  A posted message, with what the handler observes while it runs: the allowed channels
  held by the bot (\<open>None\<close>: every channel) and the id of the formatted message it sends
  (\<open>None\<close>: \<open>channel.send\<close> raised, which the handler's outer \<open>except\<close> swallows).
\<close>

record message_event =
  m_author_id :: int
  m_author_bot :: bool
  m_display_name :: pystr
  m_channel_id :: int
  m_content :: pystr
  m_allowed :: "int set option"
  m_sent :: "int option"
  m_now :: timestamp

definition on_message :: "db \<Rightarrow> message_event \<Rightarrow> db" where
  "on_message d ev =
     (if m_author_bot ev then d
      else if (case m_allowed ev of None \<Rightarrow> False | Some allowed \<Rightarrow> m_channel_id ev \<notin> allowed) then d
      else (case first_url (m_content ev) of
              None \<Rightarrow> d
            | Some lnk \<Rightarrow>
                (case get_active_session d (m_author_id ev) of
                   Some existing_session \<Rightarrow> d
                 | None \<Rightarrow>
                     (let d1 = add_user d (m_author_id ev) (m_display_name ev) (m_now ev)
                      in (case m_sent ev of
                            None \<Rightarrow> d1
                          | Some formatted_id \<Rightarrow>
                              fst (add_session d1 (m_author_id ev) lnk formatted_id
                                     (m_channel_id ev) (m_now ev)))))))"

subsection \<open>on_raw_reaction_add\<close>

text \<open>
  A reaction, with what the handler observes: the bot's own id, the allowed channels,
  whether \<open>get_channel\<close> finds the channel, the fetched message (\<open>None\<close>:
  \<open>fetch_message\<close> raised; \<open>Some e\<close>: \<open>e\<close> tells whether it has embeds) and the guild's
  members (\<open>None\<close>: \<open>fetch_members\<close> raised).
\<close>

record reaction_event =
  r_user_id :: int
  r_channel_id :: int
  r_message_id :: int
  r_emoji :: pystr
  r_bot_id :: int
  r_allowed :: "int set option"
  r_channel_found :: bool
  r_message :: "bool option"
  r_members :: "int list option"
  r_now :: timestamp

datatype reaction_result =
    IgnoredBot
  | IgnoredChannel
  | IgnoredEmoji
  | NoChannel
  | NoMessage
  | NoOwner
  | SelfEngagement
  | NoSessionId
  | AlreadyEngaged
  | NotInserted
  | Recorded

text \<open>The scan of the guild's members for the owner of the message.\<close>

fun find_owner_session :: "db \<Rightarrow> int \<Rightarrow> int list \<Rightarrow> session_row option" where
  "find_owner_session d mid [] = None"
| "find_owner_session d mid (uid # rest) =
     (case get_active_session d uid of
        None \<Rightarrow> find_owner_session d mid rest
      | Some session \<Rightarrow>
          if message_id session = Some mid then Some session
          else find_owner_session d mid rest)"

text \<open>The last \<open>try\<close> block: the check, the insert and the point.\<close>

definition record_engagement :: "db \<Rightarrow> int \<Rightarrow> int \<Rightarrow> timestamp \<Rightarrow> db \<times> reaction_result" where
  "record_engagement d eid sid now =
     (if has_engaged d eid sid then (d, AlreadyEngaged)
      else (case add_engagement d eid sid now of
              (d1, True) \<Rightarrow> (add_point d1 eid, Recorded)
            | (d1, False) \<Rightarrow> (d1, NotInserted)))"

definition on_raw_reaction_add :: "db \<Rightarrow> reaction_event \<Rightarrow> db \<times> reaction_result" where
  "on_raw_reaction_add d ev =
     (if r_user_id ev = r_bot_id ev then (d, IgnoredBot)
      else if (case r_allowed ev of None \<Rightarrow> False | Some allowed \<Rightarrow> r_channel_id ev \<notin> allowed)
      then (d, IgnoredChannel)
      else if r_emoji ev \<noteq> checkmark_emoji then (d, IgnoredEmoji)
      else if \<not> r_channel_found ev then (d, NoChannel)
      else (case r_message ev of
              None \<Rightarrow> (d, NoMessage)
            | Some has_embeds \<Rightarrow>
                (case (if has_embeds
                       then (case r_members ev of
                               None \<Rightarrow> None
                             | Some guild_members \<Rightarrow>
                                 find_owner_session d (r_message_id ev) guild_members)
                       else None) of
                   None \<Rightarrow> (d, NoOwner)
                 | Some content_owner_session \<Rightarrow>
                     if r_user_id ev = s_user_id content_owner_session then (d, SelfEngagement)
                     else if session_id content_owner_session = 0 then (d, NoSessionId)
                     else record_engagement d (r_user_id ev)
                            (session_id content_owner_session) (r_now ev))))"

subsection \<open>The bot as a whole\<close>

text \<open>
  The events that reach the store: a posted message, a reaction, the \<open>/change_link\<close>
  command and the confirmation button of \<open>/reset_session\<close> (pressed by an administrator
  or not).
\<close>

datatype event =
    MessagePosted message_event
  | ReactionAdded reaction_event
  | LinkChange change_link_event
  | ResetConfirmed bool

fun handle :: "db \<Rightarrow> event \<Rightarrow> db" where
  "handle d (MessagePosted ev) = on_message d ev"
| "handle d (ReactionAdded ev) = fst (on_raw_reaction_add d ev)"
| "handle d (LinkChange ev) = fst (change_link d ev)"
| "handle d (ResetConfirmed is_admin) = (if is_admin then reset_all_sessions d else d)"

definition run :: "event list \<Rightarrow> db" where
  "run evs = foldl handle empty_db evs"

text \<open>Every write the store offers, in any order.\<close>

datatype store_op =
    AddUser int pystr timestamp
  | AddSession int pystr int int timestamp
  | MarkEngaged int
  | AddEngagement int int timestamp
  | AddPoint int
  | UpdateLink int pystr
  | ResetAllSessions

fun apply_op :: "db \<Rightarrow> store_op \<Rightarrow> db" where
  "apply_op d (AddUser uid name now) = add_user d uid name now"
| "apply_op d (AddSession uid lnk mid cid now) = fst (add_session d uid lnk mid cid now)"
| "apply_op d (MarkEngaged uid) = mark_engaged d uid"
| "apply_op d (AddEngagement eid sid now) = fst (add_engagement d eid sid now)"
| "apply_op d (AddPoint uid) = add_point d uid"
| "apply_op d (UpdateLink sid lnk) = update_link d sid lnk"
| "apply_op d ResetAllSessions = reset_all_sessions d"

section \<open>Concrete stores\<close>

text \<open>
  Three creators post a link each in channel 500; the second and the third then react to
  the first one's post. Member 4 never posts.
\<close>

definition scenario_post :: "int \<Rightarrow> pystr \<Rightarrow> pystr \<Rightarrow> int \<Rightarrow> timestamp \<Rightarrow> message_event" where
  "scenario_post uid name content formatted_id now =
     \<lparr>m_author_id = uid, m_author_bot = False, m_display_name = name, m_channel_id = 500,
      m_content = content, m_allowed = Some {500}, m_sent = Some formatted_id, m_now = now\<rparr>"

definition scenario_react :: "int \<Rightarrow> int \<Rightarrow> pystr \<Rightarrow> int \<Rightarrow> timestamp \<Rightarrow> reaction_event" where
  "scenario_react uid mid emoji cid now =
     \<lparr>r_user_id = uid, r_channel_id = cid, r_message_id = mid, r_emoji = emoji, r_bot_id = 99,
      r_allowed = Some {500}, r_channel_found = True, r_message = Some True,
      r_members = Some [1, 2, 3, 4], r_now = now\<rparr>"

definition scenario_events :: "event list" where
  "scenario_events =
     [MessagePosted (scenario_post 1 (ascii ''A'') (ascii ''see http://x/1 now'') 1001 10),
      MessagePosted (scenario_post 2 (ascii ''B'') (ascii ''http://x/2'') 1002 11),
      MessagePosted (scenario_post 3 (ascii ''C'') (ascii ''https://x/3'') 1003 12),
      ReactionAdded (scenario_react 2 1001 checkmark_emoji 500 20),
      ReactionAdded (scenario_react 3 1001 checkmark_emoji 500 21)]"

definition scenario_sessions :: "session_row list" where
  "scenario_sessions =
     [\<lparr>session_id = 1, s_user_id = 1, link = ascii ''http://x/1'', message_id = Some 1001,
       submitted_at = 10, engaged = False, channel_id = Some 500\<rparr>,
      \<lparr>session_id = 2, s_user_id = 2, link = ascii ''http://x/2'', message_id = Some 1002,
       submitted_at = 11, engaged = False, channel_id = Some 500\<rparr>,
      \<lparr>session_id = 3, s_user_id = 3, link = ascii ''https://x/3'', message_id = Some 1003,
       submitted_at = 12, engaged = False, channel_id = Some 500\<rparr>]"

definition scenario_db :: db where
  "scenario_db =
     \<lparr>users = [\<lparr>user_id = 1, username = ascii ''A'', total_points = 0, created_at = 10\<rparr>,
               \<lparr>user_id = 2, username = ascii ''B'', total_points = 1, created_at = 11\<rparr>,
               \<lparr>user_id = 3, username = ascii ''C'', total_points = 1, created_at = 12\<rparr>],
      sessions = scenario_sessions,
      engagements = [\<lparr>engagement_id = 1, engager_id = 2, target_session_id = 1, engaged_at = 20\<rparr>,
                     \<lparr>engagement_id = 2, engager_id = 3, target_session_id = 1, engaged_at = 21\<rparr>],
      session_seq = 3, engagement_seq = 2\<rparr>"

text \<open>One creator with two submissions, stored ten seconds apart.\<close>

definition resubmitted_db :: db where
  "resubmitted_db =
     foldl apply_op empty_db
       [AddUser 1 (ascii ''A'') 10,
        AddSession 1 (ascii ''http://x/1'') 1001 500 10,
        AddSession 1 (ascii ''http://x/2'') 1002 500 20]"

text \<open>The same, when the wall clock is set back between the two inserts.\<close>

definition clock_step_db :: db where
  "clock_step_db =
     foldl apply_op empty_db
       [AddUser 1 (ascii ''A'') 20,
        AddSession 1 (ascii ''http://x/1'') 1001 500 20,
        AddSession 1 (ascii ''http://x/2'') 1002 500 10]"

text \<open>\<open>/change_link\<close> when every call to the chat platform succeeds.\<close>

definition scenario_change_link :: "int \<Rightarrow> pystr \<Rightarrow> change_link_event" where
  "scenario_change_link uid new_link =
     \<lparr>c_user_id = uid, c_new_link = new_link, c_channel_found = True, c_fetch_message = Done,
      c_edit_message = Done, c_log_channel_found = True, c_log_send = Done\<rparr>"

text \<open>
  The scenario continued: 1 reacts to the posts of 2 and 3, and 2 to the post of 3, so
  that only 3 still owes a reaction (to the post of 2).
\<close>

definition engaged_events :: "event list" where
  "engaged_events =
     scenario_events @
     [ReactionAdded (scenario_react 1 1002 checkmark_emoji 500 30),
      ReactionAdded (scenario_react 1 1003 checkmark_emoji 500 31),
      ReactionAdded (scenario_react 2 1003 checkmark_emoji 500 32)]"

definition engaged_db :: db where
  "engaged_db =
     scenario_db\<lparr>users := [\<lparr>user_id = 1, username = ascii ''A'', total_points = 2, created_at = 10\<rparr>,
               \<lparr>user_id = 2, username = ascii ''B'', total_points = 2, created_at = 11\<rparr>,
               \<lparr>user_id = 3, username = ascii ''C'', total_points = 1, created_at = 12\<rparr>],
        engagements := engagements scenario_db @
            [\<lparr>engagement_id = 3, engager_id = 1, target_session_id = 2, engaged_at = 30\<rparr>,
             \<lparr>engagement_id = 4, engager_id = 1, target_session_id = 3, engaged_at = 31\<rparr>,
             \<lparr>engagement_id = 5, engager_id = 2, target_session_id = 3, engaged_at = 32\<rparr>],
        engagement_seq := 5\<rparr>"

section \<open>The specification's notion of a link\<close>

text \<open>
  The specification asks for a well-formed absolute URI. Whatever else that requires, a
  URI is written with the characters of RFC 3986 only: letters, digits, \<open>-._~\<close>,
  \<open>:/?#[]@\<close>, \<open>!$&'()*+,;=\<close> and \<open>%\<close>.
\<close>

definition spec_uri_character :: "nat \<Rightarrow> bool" where
  "spec_uri_character c =
     ((65 \<le> c \<and> c \<le> 90) \<or> (97 \<le> c \<and> c \<le> 122) \<or> (48 \<le> c \<and> c \<le> 57)
      \<or> c \<in> {45, 46, 95, 126}
      \<or> c \<in> {58, 47, 63, 35, 91, 93, 64}
      \<or> c \<in> {33, 36, 38, 39, 40, 41, 42, 43, 44, 59, 61}
      \<or> c = 37)"

section \<open>Invariants\<close>

text \<open>At most one engagement row for each pair of engager and target session.\<close>

definition unique_edges :: "db \<Rightarrow> bool" where
  "unique_edges d = (\<forall>eid sid. count_engagements d eid sid \<le> 1)"

text \<open>
  Session ids are distinct, positive and not beyond the counter; and every engagement row
  targets a stored session that somebody else owns.
\<close>

definition sessions_keyed :: "db \<Rightarrow> bool" where
  "sessions_keyed d =
     (distinct (map session_id (sessions d)) \<and> 0 \<le> session_seq d
      \<and> (\<forall>s \<in> set (sessions d). 0 < session_id s \<and> session_id s \<le> session_seq d))"

definition no_self_edges :: "db \<Rightarrow> bool" where
  "no_self_edges d =
     (\<forall>e \<in> set (engagements d). \<exists>s \<in> set (sessions d).
         session_id s = target_session_id e \<and> s_user_id s \<noteq> engager_id e)"

section \<open>Auxiliary facts\<close>

lemma map_if_id: "(\<And>x. x \<in> set xs \<Longrightarrow> \<not> P x) \<Longrightarrow> map (\<lambda>x. if P x then g x else x) xs = xs"
  by (induction xs) auto

lemma add_point_absent: "uid \<notin> set (map user_id (users d)) \<Longrightarrow> add_point d uid = d"
proof -
  assume "uid \<notin> set (map user_id (users d))"
  then have "map (\<lambda>u. if user_id u = uid then u\<lparr>total_points := total_points u + 1\<rparr> else u) (users d) = users d"
    by (intro map_if_id) auto
  then show ?thesis by (simp add: add_point_def)
qed

lemma first_row_None:
  "(case limit_rows 1 (order_by_desc k rows) of [] \<Rightarrow> None | r # _ \<Rightarrow> Some r) = None \<longleftrightarrow> rows = []"
proof -
  have "sort_key (\<lambda>r. - k r) rows = [] \<longleftrightarrow> rows = []"
    by (metis length_sort list.size(3) length_0_conv)
  then show ?thesis
    by (cases "sort_key (\<lambda>r. - k r) rows") (simp_all add: limit_rows_def order_by_desc_def)
qed

lemma first_row_Some:
  assumes "(case limit_rows 1 (order_by_desc k rows) of [] \<Rightarrow> None | r # _ \<Rightarrow> Some r) = Some x"
  shows "x \<in> set rows \<and> (\<forall>y \<in> set rows. k y \<le> k x)"
proof -
  obtain rest where s: "sort_key (\<lambda>r. - k r) rows = x # rest"
    using assms by (cases "sort_key (\<lambda>r. - k r) rows") (simp_all add: limit_rows_def order_by_desc_def)
  have "set (x # rest) = set rows" using s by (metis set_sort)
  moreover have "sorted (map (\<lambda>r. - k r) (x # rest))" using s by (metis sorted_sort_key)
  ultimately show ?thesis by auto
qed

lemma get_active_session_None:
  "get_active_session d uid = None \<longleftrightarrow> uid \<notin> s_user_id ` set (sessions d)"
  unfolding get_active_session_def first_row_None
  by (auto simp: filter_empty_conv)

lemma get_active_session_Some:
  assumes "get_active_session d uid = Some s"
  shows "s \<in> set (sessions d)" "s_user_id s = uid"
    "\<And>s'. s' \<in> set (sessions d) \<Longrightarrow> s_user_id s' = uid \<Longrightarrow> submitted_at s' \<le> submitted_at s"
  using first_row_Some [OF assms [unfolded get_active_session_def]] by auto



lemma latest_keys: "set (map fst (latest_session_rows d)) = s_user_id ` set (sessions d)"
  by (simp add: latest_session_rows_def comp_def)

lemma latest_keys_list: "map fst (latest_session_rows d) = sort (remdups (map s_user_id (sessions d)))"
  by (simp add: latest_session_rows_def comp_def)

lemma latest_lookup:
  "map_of (latest_session_rows d) uid =
     (if uid \<in> s_user_id ` set (sessions d)
      then Some (Max (session_id ` {s \<in> set (sessions d). s_user_id s = uid})) else None)"
proof -
  have "map_of (map (\<lambda>k. (k, f k)) ks) u = (if u \<in> set ks then Some (f u) else None)" for f :: "int \<Rightarrow> int" and ks u
    by (induction ks) auto
  then show ?thesis
    by (simp add: latest_session_rows_def image_def)
qed

lemma engagers_set:
  "set (get_engagers_for_session d sid) = {u. has_engaged d u sid}"
proof -
  have "has_engaged d u sid \<longleftrightarrow> (\<exists>e \<in> set (engagements d). engager_id e = u \<and> target_session_id e = sid)" for u
    by (auto simp: has_engaged_def count_engagements_def filter_empty_conv)
  then show ?thesis
    by (auto simp: get_engagers_for_session_def order_by_asc_def)
qed

lemma status_report:
  assumes "status d uid = Some st"
  shows "\<exists>session. get_active_session d uid = Some session
           \<and> st_link st = link session
           \<and> st_total_required st = card (dom (map_of (get_latest_sessions_map d)) - {uid})
           \<and> st_engaged_count st =
               card {u \<in> dom (map_of (get_latest_sessions_map d)) - {uid}. has_engaged d u (session_id session)}
           \<and> set (st_pending_ids st) =
               {u \<in> dom (map_of (get_latest_sessions_map d)) - {uid}. \<not> has_engaged d u (session_id session)}
           \<and> sorted (st_pending_ids st) \<and> distinct (st_pending_ids st)"
proof -
  obtain session where a: "get_active_session d uid = Some session"
    using assms by (cases "get_active_session d uid") (simp_all add: status_def)
  define K where "K = set (map fst (get_latest_sessions_map d))"
  have fin: "finite K" by (simp add: K_def)
  have dom: "dom (map_of (get_latest_sessions_map d)) = K"
    by (simp add: K_def dom_map_of_conv_image_fst)
  have others: "{u \<in> K. u \<noteq> uid} = K - {uid}" by auto
  have st0: "st = \<lparr>st_link = link session,
                  st_engaged_count = card ({u. has_engaged d u (session_id session)} \<inter> (K - {uid})),
                  st_total_required = length (sorted_list_of_set {u \<in> K. u \<noteq> uid}),
                  st_pending_ids = filter (\<lambda>u. \<not> has_engaged d u (session_id session))
                                     (sorted_list_of_set {u \<in> K. u \<noteq> uid})\<rparr>"
    using assms a by (simp add: status_def Let_def engagers_set K_def)
  have st: "st = \<lparr>st_link = link session,
                  st_engaged_count = card ({u. has_engaged d u (session_id session)} \<inter> (K - {uid})),
                  st_total_required = length (sorted_list_of_set (K - {uid})),
                  st_pending_ids = filter (\<lambda>u. \<not> has_engaged d u (session_id session))
                                     (sorted_list_of_set (K - {uid}))\<rparr>"
    using st0 unfolding others .
  have e: "{u. has_engaged d u (session_id session)} \<inter> (K - {uid})
           = {u \<in> K - {uid}. has_engaged d u (session_id session)}" by auto
  show ?thesis
    unfolding dom using a fin by (auto simp: st e sorted_wrt_filter)
qed

lemma status_eval:
  "status d uid =
     (case get_active_session d uid of
        None \<Rightarrow> None
      | Some session \<Rightarrow>
          (let others = sort (remdups (filter (\<lambda>u. u \<noteq> uid) (map fst (get_latest_sessions_map d))));
               engagers = get_engagers_for_session d (session_id session)
           in Some \<lparr>st_link = link session,
                    st_engaged_count = length (remdups (filter (\<lambda>u. u \<in> set others) engagers)),
                    st_total_required = length others,
                    st_pending_ids = filter (\<lambda>u. u \<notin> set engagers) others\<rparr>))"
proof -
  have a: "{u \<in> set ks. u \<noteq> uid} = set (filter (\<lambda>u. u \<noteq> uid) ks)" for ks :: "int list"
    by auto
  have b: "card (set es \<inter> (set ks - {uid})) = length (remdups (filter (\<lambda>u. u \<in> set (filter (\<lambda>u. u \<noteq> uid) ks)) es))"
    for es ks :: "int list"
  proof -
    have "set es \<inter> (set ks - {uid}) = set (filter (\<lambda>u. u \<in> set (filter (\<lambda>u. u \<noteq> uid) ks)) es)" by auto
    then show ?thesis by (simp only: length_remdups_card_conv)
  qed
  show ?thesis
    unfolding status_def Let_def a b sorted_list_of_set_sort_remdups
    by (simp split: option.splits)
qed

lemmas store_defs = add_user_def add_session_def get_active_session_def limit_rows_def order_by_desc_def
  has_engaged_def count_engagements_def add_engagement_def add_point_def

lemma run_scenario: "run scenario_events = scenario_db"
  by (simp add: run_def scenario_events_def scenario_post_def scenario_react_def scenario_db_def scenario_sessions_def
      on_message_def on_raw_reaction_add_def record_engagement_def url_at_def strip_scheme_def is_space_def ascii_def
      checkmark_emoji_def empty_db_def store_defs Let_def)

lemma status_A: "status scenario_db 1 = Some \<lparr>st_link = ascii ''http://x/1'', st_engaged_count = 2, st_total_required = 2, st_pending_ids = []\<rparr>"
  by (simp add: status_eval get_active_session_def scenario_db_def scenario_sessions_def limit_rows_def order_by_desc_def
     get_latest_sessions_map_def latest_session_rows_def get_engagers_for_session_def order_by_asc_def Let_def)

lemma status_B: "status scenario_db 2 = Some \<lparr>st_link = ascii ''http://x/2'', st_engaged_count = 0, st_total_required = 2, st_pending_ids = [1, 3]\<rparr>"
  by (simp add: status_eval get_active_session_def scenario_db_def scenario_sessions_def limit_rows_def order_by_desc_def
     get_latest_sessions_map_def latest_session_rows_def get_engagers_for_session_def order_by_asc_def Let_def)

lemma latest_lookup_map: "map_of (get_latest_sessions_map d) uid =
     (if uid \<in> s_user_id ` set (sessions d)
      then Some (Max (session_id ` {s \<in> set (sessions d). s_user_id s = uid})) else None)"
  by (simp only: get_latest_sessions_map_def latest_lookup)

lemmas eval_defs = store_defs empty_db_def ascii_def get_latest_sessions_map_def latest_session_rows_def
  update_link_def reset_all_sessions_def mark_engaged_def Let_def

lemma strip_scheme_Some:
  "strip_scheme s = Some r \<longleftrightarrow> s = ascii ''http://'' @ r \<or> s = ascii ''https://'' @ r"
proof -
  have l7: "length (ascii ''http://'') = 7" and l8: "length (ascii ''https://'') = 8"
    by (simp_all add: ascii_def)
  have ne: "take 8 (ascii ''http://'' @ r) \<noteq> ascii ''https://''"
    by (simp add: ascii_def)
  have t7: "take 7 (ascii ''https://'' @ r) \<noteq> ascii ''http://''"
    by (simp add: ascii_def)
  show ?thesis
  proof
    assume "strip_scheme s = Some r"
    then show "s = ascii ''http://'' @ r \<or> s = ascii ''https://'' @ r"
      by (auto simp: strip_scheme_def split: if_splits) (metis append_take_drop_id)+
  next
    assume "s = ascii ''http://'' @ r \<or> s = ascii ''https://'' @ r"
    then show "strip_scheme s = Some r"
    proof
      assume "s = ascii ''http://'' @ r"
      then show ?thesis using ne l7 by (simp add: strip_scheme_def)
    next
      assume "s = ascii ''https://'' @ r"
      then show ?thesis using l8 by (simp add: strip_scheme_def)
    qed
  qed
qed

lemma rest_matches:
  "takeWhile (\<lambda>c. \<not> is_space c) r \<noteq> [] \<and> dropWhile (\<lambda>c. \<not> is_space c) r \<in> {[], [10]}
   \<longleftrightarrow> (\<exists>body tail. r = body @ tail \<and> body \<noteq> [] \<and> (\<forall>c \<in> set body. \<not> is_space c)
                     \<and> tail \<in> {[], [10]})"
proof
  assume a: "takeWhile (\<lambda>c. \<not> is_space c) r \<noteq> [] \<and> dropWhile (\<lambda>c. \<not> is_space c) r \<in> {[], [10]}"
  have "r = takeWhile (\<lambda>c. \<not> is_space c) r @ dropWhile (\<lambda>c. \<not> is_space c) r" by simp
  moreover have "\<forall>c \<in> set (takeWhile (\<lambda>c. \<not> is_space c) r). \<not> is_space c"
    by (auto dest: set_takeWhileD)
  ultimately show "\<exists>body tail. r = body @ tail \<and> body \<noteq> [] \<and> (\<forall>c \<in> set body. \<not> is_space c)
                     \<and> tail \<in> {[], [10]}"
    using a by blast
next
  assume "\<exists>body tail. r = body @ tail \<and> body \<noteq> [] \<and> (\<forall>c \<in> set body. \<not> is_space c)
                     \<and> tail \<in> {[], [10]}"
  then obtain body tail where b: "r = body @ tail" "body \<noteq> []" "\<forall>c \<in> set body. \<not> is_space c"
     "tail \<in> {[], [10]}" by blast
  have sp: "is_space 10" by (simp add: is_space_def)
  have "takeWhile (\<lambda>c. \<not> is_space c) r = body \<and> dropWhile (\<lambda>c. \<not> is_space c) r = tail"
    using b sp by (auto simp: takeWhile_append dropWhile_append)
  then show "takeWhile (\<lambda>c. \<not> is_space c) r \<noteq> [] \<and> dropWhile (\<lambda>c. \<not> is_space c) r \<in> {[], [10]}"
    using b by simp
qed

lemma url_pattern_match_iff:
  "url_pattern_match s \<longleftrightarrow>
     (\<exists>scheme body tail. s = scheme @ body @ tail
        \<and> scheme \<in> {ascii ''http://'', ascii ''https://''}
        \<and> body \<noteq> [] \<and> (\<forall>c \<in> set body. \<not> is_space c)
        \<and> tail \<in> {[], [10]})"
proof
  assume "url_pattern_match s"
  then obtain r where r: "strip_scheme s = Some r"
     "takeWhile (\<lambda>c. \<not> is_space c) r \<noteq> [] \<and> dropWhile (\<lambda>c. \<not> is_space c) r \<in> {[], [10]}"
    by (auto simp: url_pattern_match_def split: option.splits)
  from r(2) obtain body tail where b: "r = body @ tail" "body \<noteq> []" "\<forall>c \<in> set body. \<not> is_space c"
     "tail \<in> {[], [10]}" unfolding rest_matches by blast
  from r(1) have "s = ascii ''http://'' @ r \<or> s = ascii ''https://'' @ r"
    by (simp only: strip_scheme_Some)
  then show "\<exists>scheme body tail. s = scheme @ body @ tail
        \<and> scheme \<in> {ascii ''http://'', ascii ''https://''}
        \<and> body \<noteq> [] \<and> (\<forall>c \<in> set body. \<not> is_space c)
        \<and> tail \<in> {[], [10]}"
    using b by blast
next
  assume "\<exists>scheme body tail. s = scheme @ body @ tail
        \<and> scheme \<in> {ascii ''http://'', ascii ''https://''}
        \<and> body \<noteq> [] \<and> (\<forall>c \<in> set body. \<not> is_space c)
        \<and> tail \<in> {[], [10]}"
  then obtain scheme body tail where b: "s = scheme @ body @ tail"
        "scheme \<in> {ascii ''http://'', ascii ''https://''}"
        "body \<noteq> []" "\<forall>c \<in> set body. \<not> is_space c" "tail \<in> {[], [10]}" by blast
  have "strip_scheme s = Some (body @ tail)"
    using b(1,2) by (simp only: strip_scheme_Some) blast
  moreover have "takeWhile (\<lambda>c. \<not> is_space c) (body @ tail) \<noteq> []
        \<and> dropWhile (\<lambda>c. \<not> is_space c) (body @ tail) \<in> {[], [10]}"
    unfolding rest_matches using b(3,4,5) by blast
  ultimately show "url_pattern_match s" by (simp add: url_pattern_match_def)
qed



lemma run_engaged: "run engaged_events = engaged_db"
  by (simp add: engaged_events_def engaged_db_def run_def scenario_events_def scenario_post_def scenario_react_def scenario_db_def scenario_sessions_def
      on_message_def on_raw_reaction_add_def record_engagement_def url_at_def strip_scheme_def is_space_def ascii_def
      checkmark_emoji_def empty_db_def store_defs Let_def)

lemma missing_engagement_Some:
  assumes "set others \<subseteq> fst ` set sm"
  shows "missing_engagement d sm uid others =
           Some (\<exists>w \<in> set others. w \<noteq> uid \<and> (\<exists>sid. map_of sm w = Some sid \<and> count_engagements d uid sid = 0))"
  using assms
proof (induction others)
  case Nil
  then show ?case by simp
next
  case (Cons a others)
  then have ih: "missing_engagement d sm uid others =
           Some (\<exists>w \<in> set others. w \<noteq> uid \<and> (\<exists>sid. map_of sm w = Some sid \<and> count_engagements d uid sid = 0))"
    by simp
  from Cons.prems have "a \<in> fst ` set sm" by simp
  then obtain sid where sid: "map_of sm a = Some sid"
    by (metis domD dom_map_of_conv_image_fst)
  show ?case
    by (cases "a = uid") (auto simp: ih sid)
qed

lemma non_engaged_loop_Some:
  assumes "set ids \<subseteq> fst ` set sm"
  shows "non_engaged_loop d sm ids rest =
           Some (map (\<lambda>u. (u, username_or_id d u))
                  (filter (\<lambda>u. \<exists>w \<in> set ids. w \<noteq> u \<and> (\<exists>sid. map_of sm w = Some sid \<and> count_engagements d u sid = 0)) rest))"
  by (induction rest) (simp_all add: missing_engagement_Some [OF assms])

lemma non_engaged_engaged_db: "get_non_engaged_users engaged_db = Some [(3, ascii ''C'')]"
  by (simp add: get_non_engaged_users_def latest_session_rows_def engaged_db_def scenario_db_def
      scenario_sessions_def count_engagements_def username_or_id_def Let_def)

lemma count_add_engagement:
  "count_engagements (fst (add_engagement d eid sid now)) e s =
     (if e = eid \<and> s = sid \<and> count_engagements d eid sid = 0 then 1 else count_engagements d e s)"
  by (simp add: add_engagement_def has_engaged_def count_engagements_def)

lemma unique_edges_add_engagement:
  "unique_edges d \<Longrightarrow> unique_edges (fst (add_engagement d eid sid now))"
  by (simp add: unique_edges_def count_add_engagement)

lemma unique_edges_cong: "engagements d' = engagements d \<Longrightarrow> unique_edges d' = unique_edges d"
  by (simp add: unique_edges_def count_engagements_def)

lemma engagements_add_user: "engagements (add_user d uid name now) = engagements d"
  by (simp add: add_user_def)

lemma engagements_add_session: "engagements (fst (add_session d uid lnk mid cid now)) = engagements d"
  by (simp add: add_session_def Let_def)

lemma engagements_mark_engaged: "engagements (mark_engaged d uid) = engagements d"
  by (simp add: mark_engaged_def split: option.splits)

lemma engagements_add_point: "engagements (add_point d uid) = engagements d"
  by (simp add: add_point_def)

lemma engagements_update_link: "engagements (update_link d sid lnk) = engagements d"
  by (simp add: update_link_def)

lemma unique_edges_reset: "unique_edges (reset_all_sessions d)"
  by (simp add: unique_edges_def reset_all_sessions_def count_engagements_def)

lemma unique_edges_apply_op: "unique_edges d \<Longrightarrow> unique_edges (apply_op d op)"
proof (cases op)
  case (AddUser uid name now)
  then show "unique_edges d \<Longrightarrow> ?thesis"
    using unique_edges_cong [OF engagements_add_user] by simp
next
  case (AddSession uid lnk mid cid now)
  then show "unique_edges d \<Longrightarrow> ?thesis"
    using unique_edges_cong [OF engagements_add_session] by simp
next
  case (MarkEngaged uid)
  then show "unique_edges d \<Longrightarrow> ?thesis"
    using unique_edges_cong [OF engagements_mark_engaged] by simp
next
  case (AddEngagement eid sid now)
  then show "unique_edges d \<Longrightarrow> ?thesis"
    by (simp add: unique_edges_add_engagement)
next
  case (AddPoint uid)
  then show "unique_edges d \<Longrightarrow> ?thesis"
    using unique_edges_cong [OF engagements_add_point] by simp
next
  case (UpdateLink sid lnk)
  then show "unique_edges d \<Longrightarrow> ?thesis"
    using unique_edges_cong [OF engagements_update_link] by simp
next
  case ResetAllSessions
  then show "unique_edges d \<Longrightarrow> ?thesis" by (simp add: unique_edges_reset)
qed

lemma unique_edges_ops: "unique_edges d \<Longrightarrow> unique_edges (foldl apply_op d ops)"
  by (induction ops arbitrary: d) (simp_all add: unique_edges_apply_op)

lemma unique_edges_empty: "unique_edges empty_db"
  by (simp add: unique_edges_def empty_db_def count_engagements_def)

lemma record_engagement_cases:
  "record_engagement d eid sid now =
     (if has_engaged d eid sid then (d, AlreadyEngaged)
      else (add_point (fst (add_engagement d eid sid now)) eid, Recorded))"
  by (simp add: record_engagement_def add_engagement_def)

lemma unique_edges_record_engagement:
  "unique_edges d \<Longrightarrow> unique_edges (fst (record_engagement d eid sid now))"
  using unique_edges_cong [OF engagements_add_point, of "fst (add_engagement d eid sid now)" eid]
  by (simp add: record_engagement_cases unique_edges_add_engagement)

lemma engagements_on_message: "engagements (on_message d ev) = engagements d"
  by (simp add: on_message_def Let_def engagements_add_user engagements_add_session split: option.splits)

lemma change_link_cases:
  "fst (change_link d ev) = d \<or> (\<exists>sid. fst (change_link d ev) = update_link d sid (c_new_link ev))"
  by (auto simp: change_link_def split: option.splits api_result.splits)

lemma on_raw_reaction_add_cases:
  "on_raw_reaction_add d ev = (d, snd (on_raw_reaction_add d ev)) \<and> snd (on_raw_reaction_add d ev) \<noteq> Recorded
   \<or> (\<exists>s members. r_members ev = Some members
          \<and> find_owner_session d (r_message_id ev) members = Some s
          \<and> r_user_id ev \<noteq> s_user_id s
          \<and> \<not> has_engaged d (r_user_id ev) (session_id s)
          \<and> on_raw_reaction_add d ev = record_engagement d (r_user_id ev) (session_id s) (r_now ev))"
  by (auto simp: on_raw_reaction_add_def record_engagement_cases split: option.splits)

lemma unique_edges_handle: "unique_edges d \<Longrightarrow> unique_edges (handle d ev)"
proof (cases ev)
  case (MessagePosted m)
  then show "unique_edges d \<Longrightarrow> ?thesis"
    using unique_edges_cong [OF engagements_on_message] by simp
next
  case (ReactionAdded r)
  assume u: "unique_edges d"
  from on_raw_reaction_add_cases [of d r] show ?thesis
  proof
    assume "on_raw_reaction_add d r = (d, snd (on_raw_reaction_add d r)) \<and> snd (on_raw_reaction_add d r) \<noteq> Recorded"
    then have "fst (on_raw_reaction_add d r) = d" by (metis fst_conv)
    then show ?thesis using u ReactionAdded by simp
  next
    assume "\<exists>s members. r_members r = Some members
          \<and> find_owner_session d (r_message_id r) members = Some s
          \<and> r_user_id r \<noteq> s_user_id s
          \<and> \<not> has_engaged d (r_user_id r) (session_id s)
          \<and> on_raw_reaction_add d r = record_engagement d (r_user_id r) (session_id s) (r_now r)"
    then obtain s :: session_row
      where "on_raw_reaction_add d r = record_engagement d (r_user_id r) (session_id s) (r_now r)"
      by blast
    then show ?thesis using unique_edges_record_engagement [OF u] ReactionAdded by simp
  qed
next
  case (LinkChange c)
  assume u: "unique_edges d"
  from change_link_cases [of d c] show ?thesis
  proof
    assume "fst (change_link d c) = d"
    then show ?thesis using u LinkChange by simp
  next
    assume "\<exists>sid. fst (change_link d c) = update_link d sid (c_new_link c)"
    then obtain sid where "fst (change_link d c) = update_link d sid (c_new_link c)" by blast
    then show ?thesis using u LinkChange unique_edges_cong [OF engagements_update_link, of d sid "c_new_link c"]
      by simp
  qed
next
  case (ResetConfirmed a)
  then show "unique_edges d \<Longrightarrow> ?thesis" by (simp add: unique_edges_reset)
qed

lemma unique_edges_run: "unique_edges (run evs)"
proof -
  have "unique_edges d \<Longrightarrow> unique_edges (foldl handle d evs)" for d
    by (induction evs arbitrary: d) (simp_all add: unique_edges_handle)
  then show ?thesis by (simp add: run_def unique_edges_empty)
qed

lemma points_of_add_point:
  "points_of (add_point d uid) other =
     (if other = uid then map_option (\<lambda>p. p + 1) (points_of d uid) else points_of d other)"
proof -
  have "map_option total_points (find (\<lambda>u. user_id u = other)
          (map (\<lambda>u. if user_id u = uid then u\<lparr>total_points := total_points u + 1\<rparr> else u) us))
        = (if other = uid then map_option (\<lambda>p. p + 1) (map_option total_points (find (\<lambda>u. user_id u = uid) us))
           else map_option total_points (find (\<lambda>u. user_id u = other) us))" for us :: "user_row list"
    by (induction us) auto
  then show ?thesis by (simp add: points_of_def add_point_def)
qed

lemma record_engagement_fresh:
  assumes "\<not> has_engaged d eid sid"
  shows "record_engagement d eid sid now =
           (add_point (fst (add_engagement d eid sid now)) eid, Recorded)"
    and "engagements (fst (record_engagement d eid sid now)) =
           engagements d @ [\<lparr>engagement_id = engagement_seq d + 1, engager_id = eid,
                              target_session_id = sid, engaged_at = now\<rparr>]"
    and "count_engagements (fst (record_engagement d eid sid now)) eid sid = 1"
  using assms
  by (simp_all add: record_engagement_cases add_engagement_def has_engaged_def count_engagements_def
      add_point_def)

lemma has_engaged_after: "has_engaged (fst (record_engagement d eid sid now)) eid sid"
proof (cases "has_engaged d eid sid")
  case True
  then show ?thesis by (simp add: record_engagement_cases)
next
  case False
  then show ?thesis using record_engagement_fresh(3) [OF False, of now] by (simp add: has_engaged_def)
qed

lemma record_engagement_twice:
  "record_engagement (fst (record_engagement d eid sid t1)) eid sid t2
       = (fst (record_engagement d eid sid t1), AlreadyEngaged)"
  using has_engaged_after [of d eid sid t1] by (simp add: record_engagement_cases)

lemma points_after_record:
  assumes "\<not> has_engaged d eid sid"
  shows "points_of (fst (record_engagement d eid sid now)) other =
           (if other = eid then map_option (\<lambda>p. p + 1) (points_of d eid) else points_of d other)"
proof -
  have "points_of (fst (add_engagement d eid sid now)) u = points_of d u" for u
    by (simp add: points_of_def add_engagement_def)
  then show ?thesis
    using assms by (simp add: record_engagement_cases points_of_add_point)
qed

lemma find_owner_session_Some:
  "find_owner_session d mid members = Some s \<Longrightarrow> s \<in> set (sessions d) \<and> message_id s = Some mid"
proof (induction members)
  case Nil
  then show ?case by simp
next
  case (Cons u members)
  show ?case
  proof (cases "get_active_session d u")
    case None
    then show ?thesis using Cons by simp
  next
    case (Some a)
    show ?thesis
    proof (cases "message_id a = Some mid")
      case True
      then have "s = a" using Cons.prems Some by simp
      then show ?thesis using True get_active_session_Some(1) [OF Some] by simp
    next
      case False
      then show ?thesis using Cons Some by simp
    qed
  qed
qed

lemma inv_frame:
  assumes "sessions d' = sessions d" "engagements d' = engagements d" "session_seq d' = session_seq d"
  shows "sessions_keyed d' = sessions_keyed d" "no_self_edges d' = no_self_edges d"
  using assms by (simp_all add: sessions_keyed_def no_self_edges_def)

lemma inv_add_user:
  "sessions_keyed (add_user d uid name now) = sessions_keyed d"
  "no_self_edges (add_user d uid name now) = no_self_edges d"
  by (rule inv_frame; simp add: add_user_def)+

lemma inv_add_point:
  "sessions_keyed (add_point d uid) = sessions_keyed d"
  "no_self_edges (add_point d uid) = no_self_edges d"
  by (rule inv_frame; simp add: add_point_def)+

lemma inv_add_session:
  assumes "sessions_keyed d" "no_self_edges d"
  shows "sessions_keyed (fst (add_session d uid lnk mid cid now))"
    and "no_self_edges (fst (add_session d uid lnk mid cid now))"
proof -
  have fresh: "session_seq d + 1 \<notin> session_id ` set (sessions d)"
    using assms(1) by (fastforce simp: sessions_keyed_def)
  show "sessions_keyed (fst (add_session d uid lnk mid cid now))"
    using assms(1) fresh by (auto simp: sessions_keyed_def add_session_def Let_def)
  show "no_self_edges (fst (add_session d uid lnk mid cid now))"
    using assms(2) by (fastforce simp: no_self_edges_def add_session_def Let_def)
qed

lemma inv_update_link:
  assumes "sessions_keyed d" "no_self_edges d"
  shows "sessions_keyed (update_link d sid lnk)" and "no_self_edges (update_link d sid lnk)"
proof -
  let ?g = "\<lambda>s::session_row. if session_id s = sid then s\<lparr>link := lnk\<rparr> else s"
  have ids: "map session_id (map ?g xs) = map session_id xs" for xs
    by (induction xs) simp_all
  have sess: "sessions (update_link d sid lnk) = map ?g (sessions d)"
    and seq: "session_seq (update_link d sid lnk) = session_seq d"
    by (simp_all add: update_link_def)
  have d1: "distinct (map session_id (sessions (update_link d sid lnk)))"
    using assms(1) by (simp only: sess ids sessions_keyed_def)
  have d2: "0 < session_id r \<and> session_id r \<le> session_seq (update_link d sid lnk)"
    if "r \<in> set (sessions (update_link d sid lnk))" for r
  proof -
    from that obtain s where s: "s \<in> set (sessions d)" "r = ?g s"
      unfolding sess by auto
    have "0 < session_id s \<and> session_id s \<le> session_seq d"
      using assms(1) s(1) by (simp add: sessions_keyed_def)
    then show ?thesis unfolding seq s(2) by simp
  qed
  have d3: "0 \<le> session_seq (update_link d sid lnk)"
    using assms(1) by (simp add: seq sessions_keyed_def)
  show "sessions_keyed (update_link d sid lnk)"
    unfolding sessions_keyed_def using d1 d2 d3 by blast
  show "no_self_edges (update_link d sid lnk)"
    unfolding no_self_edges_def
  proof
    fix e assume "e \<in> set (engagements (update_link d sid lnk))"
    then have "e \<in> set (engagements d)" by (simp add: update_link_def)
    then obtain s where s: "s \<in> set (sessions d)" "session_id s = target_session_id e"
        "s_user_id s \<noteq> engager_id e"
      using assms(2) unfolding no_self_edges_def by blast
    have "?g s \<in> set (sessions (update_link d sid lnk))"
      using s(1) by (simp add: update_link_def)
    moreover have "session_id (?g s) = target_session_id e" "s_user_id (?g s) \<noteq> engager_id e"
      using s(2,3) by simp_all
    ultimately show "\<exists>s \<in> set (sessions (update_link d sid lnk)).
         session_id s = target_session_id e \<and> s_user_id s \<noteq> engager_id e"
      by blast
  qed
qed

lemma inv_reset:
  "sessions_keyed d \<Longrightarrow> sessions_keyed (reset_all_sessions d)"
  "no_self_edges (reset_all_sessions d)"
  by (simp_all add: sessions_keyed_def no_self_edges_def reset_all_sessions_def)

lemma inv_add_engagement:
  assumes "no_self_edges d" "s \<in> set (sessions d)" "s_user_id s \<noteq> eid"
  shows "no_self_edges (fst (add_engagement d eid (session_id s) now))"
    and "sessions_keyed (fst (add_engagement d eid (session_id s) now)) = sessions_keyed d"
  using assms by (auto simp: no_self_edges_def sessions_keyed_def add_engagement_def)

lemma on_message_cases:
  "on_message d ev = d
   \<or> on_message d ev = add_user d (m_author_id ev) (m_display_name ev) (m_now ev)
   \<or> (\<exists>lnk mid. on_message d ev =
         fst (add_session (add_user d (m_author_id ev) (m_display_name ev) (m_now ev))
                (m_author_id ev) lnk mid (m_channel_id ev) (m_now ev)))"
  by (auto simp: on_message_def Let_def split: option.splits)

lemma inv_record_engagement:
  assumes "sessions_keyed d" "no_self_edges d" "s \<in> set (sessions d)" "s_user_id s \<noteq> eid"
  shows "sessions_keyed (fst (record_engagement d eid (session_id s) now))"
    and "no_self_edges (fst (record_engagement d eid (session_id s) now))"
  using assms inv_add_engagement [OF assms(2,3,4), of now]
  by (simp_all add: record_engagement_cases inv_add_point)

lemma inv_handle:
  assumes "sessions_keyed d" "no_self_edges d"
  shows "sessions_keyed (handle d ev) \<and> no_self_edges (handle d ev)"
proof (cases ev)
  case (MessagePosted m)
  from on_message_cases [of d m] show ?thesis
  proof (elim disjE exE)
    assume "on_message d m = d"
    then show ?thesis using assms MessagePosted by simp
  next
    assume "on_message d m = add_user d (m_author_id m) (m_display_name m) (m_now m)"
    then show ?thesis using assms MessagePosted by (simp add: inv_add_user)
  next
    fix lnk mid
    let ?d1 = "add_user d (m_author_id m) (m_display_name m) (m_now m)"
    assume a: "on_message d m = fst (add_session ?d1 (m_author_id m) lnk mid (m_channel_id m) (m_now m))"
    have "sessions_keyed ?d1" "no_self_edges ?d1" using assms by (simp_all add: inv_add_user)
    from inv_add_session [OF this] show ?thesis using MessagePosted a by simp
  qed
next
  case (ReactionAdded r)
  from on_raw_reaction_add_cases [of d r] show ?thesis
  proof
    assume "on_raw_reaction_add d r = (d, snd (on_raw_reaction_add d r)) \<and> snd (on_raw_reaction_add d r) \<noteq> Recorded"
    then have "fst (on_raw_reaction_add d r) = d" by (metis fst_conv)
    then show ?thesis using assms ReactionAdded by simp
  next
    assume "\<exists>s members. r_members r = Some members
          \<and> find_owner_session d (r_message_id r) members = Some s
          \<and> r_user_id r \<noteq> s_user_id s
          \<and> \<not> has_engaged d (r_user_id r) (session_id s)
          \<and> on_raw_reaction_add d r = record_engagement d (r_user_id r) (session_id s) (r_now r)"
    then obtain s :: session_row and members where s:
        "find_owner_session d (r_message_id r) members = Some s"
        "r_user_id r \<noteq> s_user_id s"
        "on_raw_reaction_add d r = record_engagement d (r_user_id r) (session_id s) (r_now r)"
      by blast
    have mem: "s \<in> set (sessions d)" using find_owner_session_Some [OF s(1)] by simp
    have ne: "s_user_id s \<noteq> r_user_id r" using s(2) by simp
    from inv_record_engagement [OF assms mem ne] show ?thesis using ReactionAdded s(3) by simp
  qed
next
  case (LinkChange c)
  from change_link_cases [of d c] show ?thesis
  proof
    assume "fst (change_link d c) = d"
    then show ?thesis using assms LinkChange by simp
  next
    assume "\<exists>sid. fst (change_link d c) = update_link d sid (c_new_link c)"
    then obtain sid where "fst (change_link d c) = update_link d sid (c_new_link c)" by blast
    then show ?thesis using inv_update_link [OF assms] LinkChange by simp
  qed
next
  case (ResetConfirmed a)
  then show ?thesis using assms by (simp add: inv_reset)
qed

lemma inv_run: "sessions_keyed (run evs) \<and> no_self_edges (run evs)"
proof -
  have "sessions_keyed d \<and> no_self_edges d
        \<Longrightarrow> sessions_keyed (foldl handle d evs) \<and> no_self_edges (foldl handle d evs)" for d
  proof (induction evs arbitrary: d)
    case Nil
    then show ?case by simp
  next
    case (Cons ev evs)
    then show ?case using inv_handle [of d ev] by simp
  qed
  moreover have "sessions_keyed empty_db \<and> no_self_edges empty_db"
    by (simp add: sessions_keyed_def no_self_edges_def empty_db_def)
  ultimately show ?thesis unfolding run_def by blast
qed

lemma owner_of_edge:
  assumes "sessions_keyed d" "no_self_edges d" "e \<in> set (engagements d)" "s \<in> set (sessions d)"
    "session_id s = target_session_id e"
  shows "s_user_id s \<noteq> engager_id e"
proof -
  obtain s' where s': "s' \<in> set (sessions d)" "session_id s' = target_session_id e"
      "s_user_id s' \<noteq> engager_id e"
    using assms(2,3) unfolding no_self_edges_def by blast
  have "inj_on session_id (set (sessions d))"
    using assms(1) by (simp add: sessions_keyed_def distinct_map)
  moreover have "session_id s' = session_id s" using s'(2) assms(5) by simp
  ultimately have "s' = s" using s'(1) assms(4) by (rule inj_onD)
  then show ?thesis using s'(3) by simp
qed

lemma self_reaction_rejected:
  assumes "r_members ev = Some members"
    and "find_owner_session d (r_message_id ev) members = Some s"
    and "r_user_id ev = s_user_id s"
  shows "fst (on_raw_reaction_add d ev) = d"
    and "snd (on_raw_reaction_add d ev) \<in>
           {IgnoredBot, IgnoredChannel, IgnoredEmoji, NoChannel, NoMessage, NoOwner, SelfEngagement}"
  using assms by (auto simp: on_raw_reaction_add_def split: option.splits)

lemma unknown_message_dropped:
  assumes "\<forall>s \<in> set (sessions d). message_id s \<noteq> Some (r_message_id ev)"
  shows "fst (on_raw_reaction_add d ev) = d"
proof -
  have "find_owner_session d (r_message_id ev) members = None" for members
    using find_owner_session_Some [of d "r_message_id ev" members] assms
    by (cases "find_owner_session d (r_message_id ev) members") auto
  then show ?thesis
    by (auto simp: on_raw_reaction_add_def split: option.splits)
qed

section \<open>Properties\<close>

subsection \<open>The active submission\<close>

text \<open>
  Claim C2, as amended. \<open>get_active_session\<close> returns nothing exactly when the user owns
  no row of \<open>sessions\<close>. Otherwise it returns a row of that user whose \<open>submitted_at\<close>
  is the largest among the user's rows: the query orders by the timestamp, not by the key.
  Whenever the timestamps of the user's rows grow strictly with \<open>session_id\<close>, that row is
  the one with the largest \<open>session_id\<close>, the one \<open>get_latest_sessions_map\<close> names.
\<close>

theorem get_active_session_latest:
  "(get_active_session d uid = None \<longleftrightarrow> uid \<notin> s_user_id ` set (sessions d)) \<and>
   (\<forall>s. get_active_session d uid = Some s \<longrightarrow>
      s \<in> set (sessions d) \<and> s_user_id s = uid \<and>
      (\<forall>s' \<in> set (sessions d). s_user_id s' = uid \<longrightarrow> submitted_at s' \<le> submitted_at s) \<and>
      ((\<forall>a \<in> set (sessions d). \<forall>b \<in> set (sessions d).
           s_user_id a = uid \<and> s_user_id b = uid \<and> session_id a < session_id b
           \<longrightarrow> submitted_at a < submitted_at b)
       \<longrightarrow> session_id s = Max (session_id ` {r \<in> set (sessions d). s_user_id r = uid})
           \<and> map_of (get_latest_sessions_map d) uid = Some (session_id s)))"
proof (intro conjI allI impI)
  show "get_active_session d uid = None \<longleftrightarrow> uid \<notin> s_user_id ` set (sessions d)"
    by (rule get_active_session_None)
next
  fix s assume a: "get_active_session d uid = Some s"
  show "s \<in> set (sessions d)" "s_user_id s = uid"
    using get_active_session_Some [OF a] by auto
  show "\<forall>s' \<in> set (sessions d). s_user_id s' = uid \<longrightarrow> submitted_at s' \<le> submitted_at s"
    using get_active_session_Some(3) [OF a] by blast
  assume mono: "\<forall>a \<in> set (sessions d). \<forall>b \<in> set (sessions d).
           s_user_id a = uid \<and> s_user_id b = uid \<and> session_id a < session_id b
           \<longrightarrow> submitted_at a < submitted_at b"
  let ?R = "{r \<in> set (sessions d). s_user_id r = uid}"
  have sR: "s \<in> ?R" using get_active_session_Some [OF a] by simp
  have top: "session_id r \<le> session_id s" if "r \<in> ?R" for r
  proof (rule ccontr)
    assume "\<not> session_id r \<le> session_id s"
    then have "submitted_at s < submitted_at r" using mono sR that by auto
    moreover have "submitted_at r \<le> submitted_at s"
      using get_active_session_Some(3) [OF a] that by simp
    ultimately show False by simp
  qed
  show m: "session_id s = Max (session_id ` ?R)"
  proof (rule sym, rule Max_eqI)
    show "finite (session_id ` ?R)" by simp
    show "\<And>y. y \<in> session_id ` ?R \<Longrightarrow> y \<le> session_id s" using top by auto
    show "session_id s \<in> session_id ` ?R" using sR by blast
  qed
  have "uid \<in> s_user_id ` set (sessions d)" using sR by auto
  then show "map_of (get_latest_sessions_map d) uid = Some (session_id s)"
    by (simp only: latest_lookup_map m if_True)
qed

theorem get_active_session_latest_witness:
  "get_active_session resubmitted_db 1 =
     Some \<lparr>session_id = 2, s_user_id = 1, link = ascii ''http://x/2'', message_id = Some 1002,
           submitted_at = 20, engaged = False, channel_id = Some 500\<rparr>
   \<and> map_of (get_latest_sessions_map resubmitted_db) 1 = Some 2
   \<and> get_active_session resubmitted_db 2 = None"
proof -
  have g: "get_active_session resubmitted_db 1 =
     Some \<lparr>session_id = 2, s_user_id = 1, link = ascii ''http://x/2'', message_id = Some 1002,
           submitted_at = 20, engaged = False, channel_id = Some 500\<rparr>"
    by (simp add: resubmitted_db_def eval_defs)
  have m: "\<forall>a \<in> set (sessions resubmitted_db). \<forall>b \<in> set (sessions resubmitted_db).
           s_user_id a = 1 \<and> s_user_id b = 1 \<and> session_id a < session_id b
           \<longrightarrow> submitted_at a < submitted_at b"
    by (simp add: resubmitted_db_def eval_defs)
  have n: "2 \<notin> s_user_id ` set (sessions resubmitted_db)"
    by (simp add: resubmitted_db_def eval_defs)
  from get_active_session_latest [of resubmitted_db 1] g m
  have "map_of (get_latest_sessions_map resubmitted_db) 1 = Some (session_id \<lparr>session_id = 2, s_user_id = 1, link = ascii ''http://x/2'', message_id = Some 1002,
           submitted_at = 20, engaged = False, channel_id = Some 500\<rparr>)" by blast
  then have "map_of (get_latest_sessions_map resubmitted_db) 1 = Some 2" by simp
  moreover from get_active_session_latest [of resubmitted_db 2] n
  have "get_active_session resubmitted_db 2 = None" by blast
  ultimately show ?thesis using g by blast
qed

text \<open>
  Claim C2 as stated fails when the clock is set back between two inserts for one user:
  the row returned has \<open>session_id\<close> 1 while the largest \<open>session_id\<close> of that user
  is 2.
\<close>

theorem get_active_session_latest_counterexample:
  "map_option session_id (get_active_session clock_step_db 1) = Some 1
   \<and> map_of (get_latest_sessions_map clock_step_db) 1 = Some 2"
  by (simp add: clock_step_db_def eval_defs)

subsection \<open>status\<close>

text \<open>
  Claim C3. For a caller with an active submission, \<open>status\<close> reports as required count
  the number of other users in the latest-session mapping, as engaged count the number of
  those users who have engaged with the caller's own session, and as pending list exactly
  those of them who have not, in ascending order without repetition. In the scenario (users
  1, 2 and 3 post, 2 and 3 react to the post of 1) the report for 1 is 2 of 2 with nobody
  pending, and the report for 2 is 0 of 2 with 1 and 3 pending.
\<close>

theorem status_counts:
  "(status d uid = Some st \<longrightarrow>
      (\<exists>session. get_active_session d uid = Some session
         \<and> st_link st = link session
         \<and> st_total_required st = card (dom (map_of (get_latest_sessions_map d)) - {uid})
         \<and> st_engaged_count st =
             card {u \<in> dom (map_of (get_latest_sessions_map d)) - {uid}.
                     has_engaged d u (session_id session)}
         \<and> set (st_pending_ids st) =
             {u \<in> dom (map_of (get_latest_sessions_map d)) - {uid}.
                \<not> has_engaged d u (session_id session)}
         \<and> sorted (st_pending_ids st) \<and> distinct (st_pending_ids st)))
   \<and> run scenario_events = scenario_db
   \<and> status scenario_db 1 =
       Some \<lparr>st_link = ascii ''http://x/1'', st_engaged_count = 2, st_total_required = 2,
             st_pending_ids = []\<rparr>
   \<and> status scenario_db 2 =
       Some \<lparr>st_link = ascii ''http://x/2'', st_engaged_count = 0, st_total_required = 2,
             st_pending_ids = [1, 3]\<rparr>"
  using status_report [of d uid st] run_scenario status_A status_B by blast

theorem status_counts_witness:
  "status scenario_db 2 =
       Some \<lparr>st_link = ascii ''http://x/2'', st_engaged_count = 0, st_total_required = 2,
             st_pending_ids = [1, 3]\<rparr>
   \<and> card (dom (map_of (get_latest_sessions_map scenario_db)) - {2}) = 2
   \<and> {u \<in> dom (map_of (get_latest_sessions_map scenario_db)) - {2}. \<not> has_engaged scenario_db u 2} = {1, 3}"
proof -
  let ?st = "\<lparr>st_link = ascii ''http://x/2'', st_engaged_count = 0, st_total_required = 2,
             st_pending_ids = [1, 3]\<rparr>"
  have h: "status scenario_db 2 = Some ?st" by (rule status_B)
  have g: "get_active_session scenario_db 2 = Some (scenario_sessions ! 1)"
    by (simp add: get_active_session_def scenario_db_def scenario_sessions_def limit_rows_def order_by_desc_def)
  have i: "session_id (scenario_sessions ! 1) = 2" by (simp add: scenario_sessions_def)
  from status_counts [of scenario_db 2 ?st] h
  obtain session where s: "get_active_session scenario_db 2 = Some session"
      "st_total_required ?st = card (dom (map_of (get_latest_sessions_map scenario_db)) - {2})"
      "set (st_pending_ids ?st) =
             {u \<in> dom (map_of (get_latest_sessions_map scenario_db)) - {2}.
                \<not> has_engaged scenario_db u (session_id session)}"
    by blast
  have "session_id session = 2" using s(1) g i by simp
  then show ?thesis using h s(2,3) by simp
qed

subsection \<open>reset_all_sessions\<close>

text \<open>
  Claim C4. \<open>reset_all_sessions\<close> empties \<open>sessions\<close> and \<open>engagements\<close> and leaves
  \<open>users\<close> as it was: afterwards the latest-session mapping is empty, and every user's
  points and the leaderboard are what they were before.
\<close>

theorem reset_all_sessions_frame:
  "sessions (reset_all_sessions d) = [] \<and> engagements (reset_all_sessions d) = []
   \<and> users (reset_all_sessions d) = users d
   \<and> get_latest_sessions_map (reset_all_sessions d) = []
   \<and> points_of (reset_all_sessions d) uid = points_of d uid
   \<and> get_leaderboard (reset_all_sessions d) n = get_leaderboard d n"
  by (simp add: reset_all_sessions_def get_latest_sessions_map_def latest_session_rows_def
      points_of_def get_leaderboard_def)

subsection \<open>add_point\<close>

text \<open>
  Claim C10. \<open>add_point\<close> for a \<open>user_id\<close> with no row in \<open>users\<close> changes nothing in
  the store; \<open>add_point\<close> never creates a row, and never changes the points of another
  user.
\<close>

theorem add_point_unregistered:
  "(uid \<notin> set (map user_id (users d)) \<longrightarrow> add_point d uid = d)
   \<and> map user_id (users (add_point d uid)) = map user_id (users d)
   \<and> (\<forall>other. other \<noteq> uid \<longrightarrow> points_of (add_point d uid) other = points_of d other)"
proof (intro conjI allI impI)
  show "add_point d uid = d" if "uid \<notin> set (map user_id (users d))"
    using that by (rule add_point_absent)
  show "map user_id (users (add_point d uid)) = map user_id (users d)"
    by (simp add: add_point_def comp_def if_distrib cong: if_cong)
  fix other assume "other \<noteq> uid"
  then have "find (\<lambda>u. user_id u = other) (map (\<lambda>u. if user_id u = uid then u\<lparr>total_points := total_points u + 1\<rparr> else u) us)
        = find (\<lambda>u. user_id u = other) us" for us :: "user_row list"
    by (induction us) auto
  then show "points_of (add_point d uid) other = points_of d other"
    by (simp add: points_of_def add_point_def)
qed

theorem add_point_unregistered_witness:
  "4 \<notin> set (map user_id (users scenario_db)) \<and> add_point scenario_db 4 = scenario_db
   \<and> points_of (add_point scenario_db 4) 4 = None"
proof -
  have h: "4 \<notin> set (map user_id (users scenario_db))" by (simp add: scenario_db_def)
  have "add_point scenario_db 4 = scenario_db" using add_point_unregistered [of 4 scenario_db] h by blast
  moreover have "points_of scenario_db 4 = None" by (simp add: scenario_db_def points_of_def)
  ultimately show ?thesis using h by simp
qed

subsection \<open>get_non_engaged_users\<close>

text \<open>
  Claim C5. \<open>get_non_engaged_users\<close> always returns, and the users it returns are
  exactly those owning a session for whom some other owner's latest session (the one with
  the largest \<open>session_id\<close>) has no engagement of theirs; they come in ascending order,
  once each, with their stored name, or the printed id where there is none. A user who has
  engaged with every other owner's latest session is not returned.
\<close>

theorem get_non_engaged_users_exact:
  "\<exists>res. get_non_engaged_users d = Some res
     \<and> fst ` set res =
         {u \<in> s_user_id ` set (sessions d).
            \<exists>w \<in> s_user_id ` set (sessions d). w \<noteq> u
               \<and> \<not> has_engaged d u (Max (session_id ` {s \<in> set (sessions d). s_user_id s = w}))}
     \<and> sorted (map fst res) \<and> distinct (map fst res)
     \<and> (\<forall>r \<in> set res. snd r = username_or_id d (fst r))"
proof -
  let ?sm = "latest_session_rows d"
  let ?ids = "map fst ?sm"
  let ?K = "s_user_id ` set (sessions d)"
  let ?P = "\<lambda>u. \<exists>w \<in> set ?ids. w \<noteq> u \<and> (\<exists>sid. map_of ?sm w = Some sid \<and> count_engagements d u sid = 0)"
  let ?Q = "\<lambda>u. \<exists>w \<in> ?K. w \<noteq> u
               \<and> \<not> has_engaged d u (Max (session_id ` {s \<in> set (sessions d). s_user_id s = w}))"
  let ?res = "map (\<lambda>u. (u, username_or_id d u)) (filter ?P ?ids)"
  have r: "get_non_engaged_users d = Some ?res"
    unfolding get_non_engaged_users_def Let_def
    by (rule non_engaged_loop_Some) simp
  have k: "set ?ids = ?K" by (rule latest_keys)
  have pq: "?P u \<longleftrightarrow> ?Q u" for u
  proof -
    have "(\<exists>sid. map_of ?sm w = Some sid \<and> count_engagements d u sid = 0)
          \<longleftrightarrow> \<not> has_engaged d u (Max (session_id ` {s \<in> set (sessions d). s_user_id s = w}))"
      if "w \<in> ?K" for w
      using that by (simp add: latest_lookup has_engaged_def)
    then show ?thesis unfolding k by blast
  qed
  have "map fst ?res = filter ?P ?ids"
    by (simp add: comp_def)
  also have "\<dots> = filter ?Q ?ids"
    by (rule filter_cong [OF refl]) (rule pq)
  finally have f: "map fst ?res = filter ?Q ?ids" .
  have "fst ` set ?res = {u \<in> ?K. ?Q u}"
  proof -
    have "fst ` set ?res = set (map fst ?res)" by (simp only: set_map)
    also have "\<dots> = set (filter ?Q ?ids)" by (simp only: f)
    also have "\<dots> = {u \<in> ?K. ?Q u}" unfolding set_filter k ..
    finally show ?thesis .
  qed
  moreover have "sorted (map fst ?res) \<and> distinct (map fst ?res)"
    unfolding f by (simp add: latest_keys_list sorted_wrt_filter)
  moreover have "\<forall>r \<in> set ?res. snd r = username_or_id d (fst r)" by auto
  ultimately show ?thesis using r by blast
qed

theorem get_non_engaged_users_exact_witness:
  "get_non_engaged_users engaged_db = Some [(3, ascii ''C'')]
   \<and> {u \<in> s_user_id ` set (sessions engaged_db).
            \<exists>w \<in> s_user_id ` set (sessions engaged_db). w \<noteq> u
               \<and> \<not> has_engaged engaged_db u
                     (Max (session_id ` {s \<in> set (sessions engaged_db). s_user_id s = w}))} = {3}
   \<and> get_non_engaged_users scenario_db = Some [(1, ascii ''A''), (2, ascii ''B''), (3, ascii ''C'')]"
proof -
  have s: "get_non_engaged_users scenario_db = Some [(1, ascii ''A''), (2, ascii ''B''), (3, ascii ''C'')]"
    by (simp add: get_non_engaged_users_def latest_session_rows_def scenario_db_def
      scenario_sessions_def count_engagements_def username_or_id_def Let_def)
  from get_non_engaged_users_exact [of engaged_db] non_engaged_engaged_db
  have "fst ` set [(3::int, ascii ''C'')] = {u \<in> s_user_id ` set (sessions engaged_db).
            \<exists>w \<in> s_user_id ` set (sessions engaged_db). w \<noteq> u
               \<and> \<not> has_engaged engaged_db u
                     (Max (session_id ` {s \<in> set (sessions engaged_db). s_user_id s = w}))}"
    by auto
  then show ?thesis using non_engaged_engaged_db s by simp
qed

subsection \<open>Reactions that are ignored\<close>

text \<open>
  Claim C7. A reaction whose emoji is not the check mark, or whose channel is outside the
  allowed set when one is configured, leaves the store as it is: the handler returns at
  one of its first three tests, before any read or write.
\<close>

theorem reaction_ignored:
  "r_emoji ev \<noteq> checkmark_emoji \<or> (\<exists>allowed. r_allowed ev = Some allowed \<and> r_channel_id ev \<notin> allowed)
   \<Longrightarrow> fst (on_raw_reaction_add d ev) = d
       \<and> snd (on_raw_reaction_add d ev) \<in> {IgnoredBot, IgnoredChannel, IgnoredEmoji}"
  by (auto simp: on_raw_reaction_add_def split: option.splits)

theorem reaction_ignored_witness:
  "fst (on_raw_reaction_add scenario_db (scenario_react 3 1002 (ascii ''x'') 500 30)) = scenario_db
   \<and> snd (on_raw_reaction_add scenario_db (scenario_react 3 1002 (ascii ''x'') 500 30)) = IgnoredEmoji
   \<and> fst (on_raw_reaction_add scenario_db (scenario_react 3 1002 checkmark_emoji 501 30)) = scenario_db
   \<and> snd (on_raw_reaction_add scenario_db (scenario_react 3 1002 checkmark_emoji 501 30)) = IgnoredChannel
   \<and> snd (on_raw_reaction_add scenario_db (scenario_react 3 1002 checkmark_emoji 500 30)) = Recorded"
proof -
  let ?e = "scenario_react 3 1002 (ascii ''x'') 500 30"
  let ?c = "scenario_react 3 1002 checkmark_emoji 501 30"
  have h1: "r_emoji ?e \<noteq> checkmark_emoji"
    by (simp add: scenario_react_def checkmark_emoji_def ascii_def)
  have h2: "\<exists>allowed. r_allowed ?c = Some allowed \<and> r_channel_id ?c \<notin> allowed"
    by (simp add: scenario_react_def)
  have a: "fst (on_raw_reaction_add scenario_db ?e) = scenario_db"
    using reaction_ignored [of ?e scenario_db] h1 by blast
  have b: "fst (on_raw_reaction_add scenario_db ?c) = scenario_db"
    using reaction_ignored [of ?c scenario_db] h2 by blast
  have c: "snd (on_raw_reaction_add scenario_db ?e) = IgnoredEmoji"
    by (simp add: on_raw_reaction_add_def scenario_react_def checkmark_emoji_def ascii_def)
  have d: "snd (on_raw_reaction_add scenario_db ?c) = IgnoredChannel"
    by (simp add: on_raw_reaction_add_def scenario_react_def)
  have e: "snd (on_raw_reaction_add scenario_db (scenario_react 3 1002 checkmark_emoji 500 30)) = Recorded"
    by (simp add: on_raw_reaction_add_def scenario_react_def scenario_db_def scenario_sessions_def
        record_engagement_def store_defs)
  show ?thesis using a b c d e by simp
qed

subsection \<open>change_link\<close>



text \<open>
  Claim C9, as amended. \<open>change_link\<close> answers "invalid URL" whenever the new link does
  not match \<open>^https?://\S+$\<close>, that is, whenever it is not \<open>http://\<close> or
  \<open>https://\<close>, then one or more code points that are not spaces, then nothing or one
  final newline. When the link matches and the caller has no active session it answers
  "no active session". In both cases it returns the store it was given.
\<close>

theorem change_link_rejections:
  "(\<not> url_pattern_match (c_new_link ev) \<longrightarrow> change_link d ev = (d, InvalidURL))
   \<and> (url_pattern_match (c_new_link ev) \<and> get_active_session d (c_user_id ev) = None
        \<longrightarrow> change_link d ev = (d, NoActiveSession))
   \<and> (url_pattern_match (c_new_link ev) \<longleftrightarrow>
        (\<exists>scheme body tail. c_new_link ev = scheme @ body @ tail
           \<and> scheme \<in> {ascii ''http://'', ascii ''https://''}
           \<and> body \<noteq> [] \<and> (\<forall>c \<in> set body. \<not> is_space c)
           \<and> tail \<in> {[], [10]}))"
  using url_pattern_match_iff [of "c_new_link ev"] by (simp add: change_link_def)

theorem change_link_rejections_witness:
  "change_link scenario_db (scenario_change_link 1 (ascii ''ftp://x/2'')) = (scenario_db, InvalidURL)
   \<and> change_link scenario_db (scenario_change_link 1 (ascii ''http://x 2'')) = (scenario_db, InvalidURL)
   \<and> change_link scenario_db (scenario_change_link 4 (ascii ''http://x/2'')) = (scenario_db, NoActiveSession)"
proof -
  have a: "\<not> url_pattern_match (c_new_link (scenario_change_link 1 (ascii ''ftp://x/2'')))"
    by (simp add: scenario_change_link_def url_pattern_match_def strip_scheme_def ascii_def)
  have b: "\<not> url_pattern_match (c_new_link (scenario_change_link 1 (ascii ''http://x 2'')))"
    by (simp add: scenario_change_link_def url_pattern_match_def strip_scheme_def ascii_def is_space_def)
  have c: "url_pattern_match (c_new_link (scenario_change_link 4 (ascii ''http://x/2'')))
           \<and> get_active_session scenario_db (c_user_id (scenario_change_link 4 (ascii ''http://x/2''))) = None"
    by (simp add: scenario_change_link_def url_pattern_match_def strip_scheme_def ascii_def is_space_def
        scenario_db_def scenario_sessions_def store_defs)
  show ?thesis
    using change_link_rejections [of "scenario_change_link 1 (ascii ''ftp://x/2'')" scenario_db] a
      change_link_rejections [of "scenario_change_link 1 (ascii ''http://x 2'')" scenario_db] b
      change_link_rejections [of "scenario_change_link 4 (ascii ''http://x/2'')" scenario_db] c
    by blast
qed

text \<open>
  Claim C9 as stated fails: \<open>http://<>\<close> is no URI, since \<open><\<close> and \<open>>\<close> are not
  URI characters, and \<open>change_link\<close> stores it.
\<close>

theorem change_link_rejections_counterexample:
  "\<not> list_all spec_uri_character (ascii ''http://<>'')
   \<and> snd (change_link scenario_db (scenario_change_link 1 (ascii ''http://<>'')))
       = LinkUpdated (Some (ascii ''http://x/1'', ascii ''http://<>''))
   \<and> map_option link (get_active_session
        (fst (change_link scenario_db (scenario_change_link 1 (ascii ''http://<>'')))) 1)
       = Some (ascii ''http://<>'')"
  by (simp add: spec_uri_character_def change_link_def scenario_change_link_def url_pattern_match_def
      strip_scheme_def ascii_def is_space_def scenario_db_def scenario_sessions_def store_defs update_link_def)

subsection \<open>Recording an engagement\<close>

text \<open>
  What the code keeps of recording an engagement. After any sequence of store operations,
  and after any sequence of events handled by the bot, there is at most one engagement row
  for each pair of engager and target session. Recording the same pair a second time
  answers "already engaged" and returns the store as the first call left it. When the pair
  was new, the first call inserts exactly one row, nobody else's points change, and an
  engager who has a row in \<open>users\<close> gains exactly one point across the two calls.
\<close>

theorem record_engagement_once:
  "count_engagements (foldl apply_op empty_db ops) eid sid \<le> 1
   \<and> count_engagements (run evs) eid sid \<le> 1
   \<and> record_engagement (fst (record_engagement d eid sid t1)) eid sid t2
       = (fst (record_engagement d eid sid t1), AlreadyEngaged)
   \<and> (\<not> has_engaged d eid sid \<longrightarrow>
         snd (record_engagement d eid sid t1) = Recorded
         \<and> engagements (fst (record_engagement d eid sid t1)) =
             engagements d @ [\<lparr>engagement_id = engagement_seq d + 1, engager_id = eid,
                                target_session_id = sid, engaged_at = t1\<rparr>]
         \<and> count_engagements (fst (record_engagement d eid sid t1)) eid sid = 1
         \<and> (\<forall>p. points_of d eid = Some p \<longrightarrow>
                points_of (fst (record_engagement (fst (record_engagement d eid sid t1)) eid sid t2)) eid
                  = Some (p + 1))
         \<and> (\<forall>other. other \<noteq> eid \<longrightarrow>
                points_of (fst (record_engagement (fst (record_engagement d eid sid t1)) eid sid t2)) other
                  = points_of d other))"
proof (intro conjI impI allI)
  show "count_engagements (foldl apply_op empty_db ops) eid sid \<le> 1"
    using unique_edges_ops [OF unique_edges_empty, of ops] by (simp add: unique_edges_def)
  show "count_engagements (run evs) eid sid \<le> 1"
    using unique_edges_run [of evs] by (simp add: unique_edges_def)
  show "record_engagement (fst (record_engagement d eid sid t1)) eid sid t2
       = (fst (record_engagement d eid sid t1), AlreadyEngaged)"
    by (rule record_engagement_twice)
next
  assume f: "\<not> has_engaged d eid sid"
  show "snd (record_engagement d eid sid t1) = Recorded"
    by (simp add: record_engagement_fresh(1) [OF f])
  show "engagements (fst (record_engagement d eid sid t1)) =
             engagements d @ [\<lparr>engagement_id = engagement_seq d + 1, engager_id = eid,
                                target_session_id = sid, engaged_at = t1\<rparr>]"
    by (rule record_engagement_fresh(2) [OF f])
  show "count_engagements (fst (record_engagement d eid sid t1)) eid sid = 1"
    by (rule record_engagement_fresh(3) [OF f])
  show "points_of (fst (record_engagement (fst (record_engagement d eid sid t1)) eid sid t2)) eid
                  = Some (p + 1)" if "points_of d eid = Some p" for p
    using that by (simp add: record_engagement_twice points_after_record [OF f])
  show "points_of (fst (record_engagement (fst (record_engagement d eid sid t1)) eid sid t2)) other
                  = points_of d other" if "other \<noteq> eid" for other
    using that by (simp add: record_engagement_twice points_after_record [OF f])
qed

theorem record_engagement_once_witness:
  "\<not> has_engaged scenario_db 3 2 \<and> points_of scenario_db 3 = Some 1
   \<and> points_of (fst (record_engagement (fst (record_engagement scenario_db 3 2 30)) 3 2 31)) 3 = Some 2
   \<and> snd (record_engagement (fst (record_engagement scenario_db 3 2 30)) 3 2 31) = AlreadyEngaged
   \<and> count_engagements (fst (record_engagement scenario_db 3 2 30)) 3 2 = 1"
proof -
  have h: "\<not> has_engaged scenario_db 3 2"
    by (simp add: has_engaged_def count_engagements_def scenario_db_def)
  have p: "points_of scenario_db 3 = Some 1"
    by (simp add: points_of_def scenario_db_def)
  note t = record_engagement_once [of "[]" 3 2 "[]" scenario_db 30 31]
  have a: "record_engagement (fst (record_engagement scenario_db 3 2 30)) 3 2 31
       = (fst (record_engagement scenario_db 3 2 30), AlreadyEngaged)"
    using t by blast
  have b: "points_of (fst (record_engagement (fst (record_engagement scenario_db 3 2 30)) 3 2 31)) 3
             = Some (1 + 1)"
    using t h p by blast
  have c: "count_engagements (fst (record_engagement scenario_db 3 2 30)) 3 2 = 1"
    using t h by blast
  have a': "snd (record_engagement (fst (record_engagement scenario_db 3 2 30)) 3 2 31) = AlreadyEngaged"
    by (simp only: a snd_conv)
  have b': "points_of (fst (record_engagement (fst (record_engagement scenario_db 3 2 30)) 3 2 31)) 3
             = Some 2"
    using b by (simp only: one_add_one)
  show ?thesis using h p a' b' c by blast
qed

text \<open>
  Claim C1. The handler means to award a point to every engager (its comment says so, and
  its log entry reads "Points Earned: 1 point" for every new engagement), and the claim
  asks for exactly one point across two calls for the same pair. The code misses the
  engager who has never posted: member 4 reacts to the post of 1, the engagement is
  recorded, the second call answers "already engaged", and 4 has no points before or
  after, because \<open>add_point\<close> finds no row of \<open>users\<close> to update and
  nothing creates one.
\<close>

theorem record_engagement_unregistered:
  "on_raw_reaction_add scenario_db (scenario_react 4 1001 checkmark_emoji 500 30)
     = record_engagement scenario_db 4 1 30
   \<and> snd (record_engagement scenario_db 4 1 30) = Recorded
   \<and> snd (record_engagement (fst (record_engagement scenario_db 4 1 30)) 4 1 31) = AlreadyEngaged
   \<and> points_of scenario_db 4 = None
   \<and> points_of (fst (record_engagement (fst (record_engagement scenario_db 4 1 30)) 4 1 31)) 4 = None
   \<and> users (fst (record_engagement (fst (record_engagement scenario_db 4 1 30)) 4 1 31))
       = users scenario_db"
proof -
  let ?d1 = "fst (record_engagement scenario_db 4 1 30)"
  have a: "on_raw_reaction_add scenario_db (scenario_react 4 1001 checkmark_emoji 500 30)
     = record_engagement scenario_db 4 1 30"
    by (simp add: on_raw_reaction_add_def scenario_react_def scenario_db_def scenario_sessions_def
        get_active_session_def limit_rows_def order_by_desc_def checkmark_emoji_def)
  have f: "\<not> has_engaged scenario_db 4 1"
    by (simp add: has_engaged_def count_engagements_def scenario_db_def)
  have r: "snd (record_engagement scenario_db 4 1 30) = Recorded"
    by (simp add: record_engagement_fresh(1) [OF f])
  have tw: "record_engagement ?d1 4 1 31 = (?d1, AlreadyEngaged)"
    by (rule record_engagement_twice)
  have p: "points_of scenario_db 4 = None" by (simp add: points_of_def scenario_db_def)
  have p1: "points_of ?d1 4 = None"
    by (simp add: points_after_record [OF f] p)
  have u: "users ?d1 = users scenario_db"
    by (simp add: record_engagement_cases add_point_def add_engagement_def
        has_engaged_def count_engagements_def scenario_db_def)
  have s2: "snd (record_engagement ?d1 4 1 31) = AlreadyEngaged" by (simp only: tw snd_conv)
  have p2: "points_of (fst (record_engagement ?d1 4 1 31)) 4 = None" by (simp only: tw fst_conv p1)
  have u2: "users (fst (record_engagement ?d1 4 1 31)) = users scenario_db" by (simp only: tw fst_conv u)
  show ?thesis using a r s2 p p2 u2 by blast
qed

subsection \<open>Self-engagement\<close>

text \<open>
  Claim C6. Whatever events the bot has handled, every engagement row targets a stored
  session, and the owner of that session is not the engager. A reaction by the owner of
  the session that the handler finds for the message is rejected with the store unchanged;
  and a reaction on a message for which no session is stored (it arrived before the
  session was saved, or after a reset) inserts nothing either.
\<close>

theorem no_self_engagement:
  "(\<forall>e \<in> set (engagements (run evs)).
      (\<exists>s \<in> set (sessions (run evs)). session_id s = target_session_id e)
      \<and> (\<forall>s \<in> set (sessions (run evs)).
            session_id s = target_session_id e \<longrightarrow> s_user_id s \<noteq> engager_id e))
   \<and> (r_members ev = Some members
        \<and> find_owner_session d (r_message_id ev) members = Some s
        \<and> r_user_id ev = s_user_id s
       \<longrightarrow> fst (on_raw_reaction_add d ev) = d
           \<and> snd (on_raw_reaction_add d ev) \<in>
               {IgnoredBot, IgnoredChannel, IgnoredEmoji, NoChannel, NoMessage, NoOwner,
                SelfEngagement})
   \<and> ((\<forall>s \<in> set (sessions d). message_id s \<noteq> Some (r_message_id ev))
       \<longrightarrow> fst (on_raw_reaction_add d ev) = d)"
proof (intro conjI ballI impI)
  fix e assume e: "e \<in> set (engagements (run evs))"
  show "\<exists>s \<in> set (sessions (run evs)). session_id s = target_session_id e"
    using inv_run [of evs] e unfolding no_self_edges_def by blast
  fix s assume "s \<in> set (sessions (run evs))" "session_id s = target_session_id e"
  then show "s_user_id s \<noteq> engager_id e"
    using owner_of_edge [of "run evs" e s] inv_run [of evs] e by blast
next
  assume a: "r_members ev = Some members
        \<and> find_owner_session d (r_message_id ev) members = Some s
        \<and> r_user_id ev = s_user_id s"
  then show "fst (on_raw_reaction_add d ev) = d"
    using self_reaction_rejected(1) [of ev members d s] by blast
  from a show "snd (on_raw_reaction_add d ev) \<in>
               {IgnoredBot, IgnoredChannel, IgnoredEmoji, NoChannel, NoMessage, NoOwner,
                SelfEngagement}"
    using self_reaction_rejected(2) [of ev members d s] by blast
next
  assume "\<forall>s \<in> set (sessions d). message_id s \<noteq> Some (r_message_id ev)"
  then show "fst (on_raw_reaction_add d ev) = d" by (rule unknown_message_dropped)
qed

theorem no_self_engagement_witness:
  "on_raw_reaction_add scenario_db (scenario_react 1 1001 checkmark_emoji 500 30)
     = (scenario_db, SelfEngagement)
   \<and> fst (on_raw_reaction_add empty_db (scenario_react 1 1001 checkmark_emoji 500 5)) = empty_db"
proof -
  let ?ev = "scenario_react 1 1001 checkmark_emoji 500 30"
  let ?s = "scenario_sessions ! 0"
  have m: "r_members ?ev = Some [1, 2, 3, 4]" by (simp add: scenario_react_def)
  have f: "find_owner_session scenario_db (r_message_id ?ev) [1, 2, 3, 4] = Some ?s"
    by (simp add: scenario_react_def scenario_db_def scenario_sessions_def get_active_session_def
        limit_rows_def order_by_desc_def)
  have u: "r_user_id ?ev = s_user_id ?s" by (simp add: scenario_react_def scenario_sessions_def)
  have a: "fst (on_raw_reaction_add scenario_db ?ev) = scenario_db"
    using no_self_engagement [of "[]" ?ev "[1, 2, 3, 4]" scenario_db ?s] m f u by blast
  have r: "snd (on_raw_reaction_add scenario_db ?ev) = SelfEngagement"
    using f u by (simp add: on_raw_reaction_add_def scenario_react_def checkmark_emoji_def)
  have n: "\<forall>s \<in> set (sessions empty_db).
             message_id s \<noteq> Some (r_message_id (scenario_react 1 1001 checkmark_emoji 500 5))"
    by (simp add: empty_db_def)
  have b: "fst (on_raw_reaction_add empty_db (scenario_react 1 1001 checkmark_emoji 500 5)) = empty_db"
    using no_self_engagement [of "[]" "scenario_react 1 1001 checkmark_emoji 500 5" "[]" empty_db ?s] n
    by blast
  have "on_raw_reaction_add scenario_db ?ev = (scenario_db, SelfEngagement)"
    using a r by (metis prod.collapse)
  then show ?thesis using b by blast
qed

end
